theory Spec2Isabelle
  imports Main
begin

section \<open>The Go runtime used by the scheduler\<close>

subsection \<open>Strings\<close>

text \<open>
  Go strings are byte sequences; \<^typ>\<open>string\<close> is a list of 8-bit characters.
  \<open>strings.TrimSpace\<close> removes leading and trailing white-space runes
  (\<open>unicode.IsSpace\<close>): the six ASCII ones and the UTF-8 encodings of U+0085, U+00A0,
  U+1680, U+2000..U+200A, U+2028, U+2029, U+202F, U+205F and U+3000.
\<close>

definition spaceRunes :: "string list" where
  "spaceRunes =
     [[CHR 0x09], [CHR 0x0A], [CHR 0x0B], [CHR 0x0C], [CHR 0x0D], [CHR 0x20],
      [CHR 0xC2, CHR 0x85], [CHR 0xC2, CHR 0xA0], [CHR 0xE1, CHR 0x9A, CHR 0x80],
      [CHR 0xE2, CHR 0x80, CHR 0x80], [CHR 0xE2, CHR 0x80, CHR 0x81],
      [CHR 0xE2, CHR 0x80, CHR 0x82], [CHR 0xE2, CHR 0x80, CHR 0x83],
      [CHR 0xE2, CHR 0x80, CHR 0x84], [CHR 0xE2, CHR 0x80, CHR 0x85],
      [CHR 0xE2, CHR 0x80, CHR 0x86], [CHR 0xE2, CHR 0x80, CHR 0x87],
      [CHR 0xE2, CHR 0x80, CHR 0x88], [CHR 0xE2, CHR 0x80, CHR 0x89],
      [CHR 0xE2, CHR 0x80, CHR 0x8A], [CHR 0xE2, CHR 0x80, CHR 0xA8],
      [CHR 0xE2, CHR 0x80, CHR 0xA9], [CHR 0xE2, CHR 0x80, CHR 0xAF],
      [CHR 0xE2, CHR 0x81, CHR 0x9F], [CHR 0xE3, CHR 0x80, CHR 0x80]]"

text \<open>
  \<open>leadingSpace\<close> is the byte length of the white-space rune a string starts with, 0
  when there is none; \<open>trimLeft\<close> strips such runes, its counter bounding the number of
  runes by the number of bytes.
\<close>

definition leadingSpace :: "string list \<Rightarrow> string \<Rightarrow> nat" where
  "leadingSpace rs s =
     (case filter (\<lambda>r. take (length r) s = r) rs of [] \<Rightarrow> 0 | r # _ \<Rightarrow> length r)"

fun trimLeft :: "string list \<Rightarrow> nat \<Rightarrow> string \<Rightarrow> string" where
  "trimLeft rs 0 s = s"
| "trimLeft rs (Suc n) s =
     (if leadingSpace rs s = 0 then s else trimLeft rs n (drop (leadingSpace rs s) s))"

definition TrimSpace :: "string \<Rightarrow> string" where
  "TrimSpace s =
     (let l = trimLeft spaceRunes (length s) s
      in rev (trimLeft (map rev spaceRunes) (length l) (rev l)))"

text \<open>
  \<open>strconv.Atoi\<close> for inputs shorter than 19 bytes (its fast path; the two
  time-of-day fields it is applied to hold at most four bytes): an optional sign, then
  decimal digits. The scheduler discards the error, so only the value is returned, which is
  0 on a syntax error.
\<close>

fun atoiDigits :: "string \<Rightarrow> int \<Rightarrow> int option" where
  "atoiDigits [] n = Some n"
| "atoiDigits (c # cs) n =
     (if 48 \<le> (of_char c :: nat) \<and> (of_char c :: nat) \<le> 57
      then atoiDigits cs (n * 10 + (int (of_char c) - 48)) else None)"

definition Atoi :: "string \<Rightarrow> int" where
  "Atoi s0 =
     (case s0 of [] \<Rightarrow> 0
      | c # cs \<Rightarrow>
          (let s = (if c = CHR ''-'' \<or> c = CHR ''+'' then cs else s0)
           in if length s < 1 then 0
              else (case atoiDigits s 0 of None \<Rightarrow> 0
                    | Some n \<Rightarrow> if c = CHR ''-'' then - n else n)))"

text \<open>
  \<open>fmt.Sprintf("%v", n)\<close> for an \<open>int64\<close>: the decimal rendering, its digits taken
  from the digit table.
\<close>

fun digitsOf :: "nat \<Rightarrow> string" where
  "digitsOf n =
     (if n < 10 then [''0123456789'' ! n]
      else digitsOf (n div 10) @ [''0123456789'' ! (n mod 10)])"

declare digitsOf.simps [simp del]

definition Sprintf_v :: "int \<Rightarrow> string" where
  "Sprintf_v n = (if n < 0 then CHR ''-'' # digitsOf (nat (- n)) else digitsOf (nat n))"

text \<open>\<open>strings.Contains(s, ":")\<close> and the first two fields of \<open>strings.Split(s, ":")\<close>.\<close>

definition ContainsColon :: "string \<Rightarrow> bool" where
  "ContainsColon s \<longleftrightarrow> CHR '':'' \<in> set s"

definition Split0 :: "string \<Rightarrow> string" where
  "Split0 s = takeWhile (\<lambda>c. c \<noteq> CHR '':'') s"

definition Split1 :: "string \<Rightarrow> string" where
  "Split1 s = takeWhile (\<lambda>c. c \<noteq> CHR '':'') (drop 1 (dropWhile (\<lambda>c. c \<noteq> CHR '':'') s))"

subsection \<open>Time\<close>

text \<open>
  A \<open>time.Time\<close> is modelled by its instant in nanoseconds since the Unix epoch, a
  \<open>time.Duration\<close> by its \<open>int64\<close> count of nanoseconds. Multiplying durations
  wraps around in 64 bits; \<open>Time.Add\<close> and \<open>Time.Unix\<close> are exact for every
  instant within centuries of the present.
\<close>

definition wrap64 :: "int \<Rightarrow> int" where
  "wrap64 x = (x + 2 ^ 63) mod 2 ^ 64 - 2 ^ 63"

definition Second :: int where
  "Second = 1000000000"

definition Minute :: int where
  "Minute = 60 * Second"

definition Hour :: int where
  "Hour = 60 * Minute"

definition mulDuration :: "int \<Rightarrow> int \<Rightarrow> int" where
  "mulDuration d v = wrap64 (d * v)"

definition Add :: "int \<Rightarrow> int \<Rightarrow> int" where
  "Add t d = t + d"

definition Unix :: "int \<Rightarrow> int" where
  "Unix t = t div 1000000000"

text \<open>
  The calendar of package \<open>time\<close>. Go counts days from 1 January of the year
  -292277022399; that year is 1 modulo 400, so counting from 1 January of year 1 shifts
  every day number by a whole number of 400-year cycles (and of weeks) and leaves the
  functions below unchanged. Day 0 is a Monday; the Unix epoch is day 719162.
  Go's unsigned divisions become floor divisions on \<^typ>\<open>int\<close>.
\<close>

definition isLeap :: "int \<Rightarrow> bool" where
  "isLeap year \<longleftrightarrow> year mod 4 = 0 \<and> (year mod 100 \<noteq> 0 \<or> year mod 400 = 0)"

definition daysBefore :: "int \<Rightarrow> int" where
  "daysBefore m =
     (if m = 0 then 0 else if m = 1 then 31 else if m = 2 then 59 else if m = 3 then 90
      else if m = 4 then 120 else if m = 5 then 151 else if m = 6 then 181
      else if m = 7 then 212 else if m = 8 then 243 else if m = 9 then 273
      else if m = 10 then 304 else if m = 11 then 334 else 365)"

definition daysSinceEpoch :: "int \<Rightarrow> int" where
  "daysSinceEpoch year =
     (let y = year - 1;
          n400 = y div 400; y1 = y - 400 * n400;
          n100 = y1 div 100; y2 = y1 - 100 * n100;
          n4 = y2 div 4; y3 = y2 - 4 * n4
      in 146097 * n400 + 36524 * n100 + 1461 * n4 + 365 * y3)"

text \<open>\<open>absDate\<close>, first half: the year and the day within the year of a day number.\<close>

definition absYear :: "int \<Rightarrow> int \<times> int" where
  "absYear d0 =
     (let n400 = d0 div 146097; d1 = d0 - 146097 * n400;
          n100' = d1 div 36524; n100 = n100' - n100' div 4; d2 = d1 - 36524 * n100;
          n4 = d2 div 1461; d3 = d2 - 1461 * n4;
          n1' = d3 div 365; n1 = n1' - n1' div 4; d4 = d3 - 365 * n1
      in (400 * n400 + 100 * n100 + 4 * n4 + n1 + 1, d4))"

text \<open>\<open>absDate\<close>, second half: the month and the day of the month.\<close>

definition absMonthDay :: "int \<Rightarrow> int \<Rightarrow> int \<times> int" where
  "absMonthDay year yday =
     (if isLeap year \<and> yday = 31 + 29 - 1 then (2, 29)
      else let day = (if isLeap year \<and> yday > 31 + 29 - 1 then yday - 1 else yday);
               month = day div 31;
               end = daysBefore (month + 1)
           in if day \<ge> end then (month + 2, day - end + 1)
              else (month + 1, day - daysBefore month + 1))"

text \<open>
  A location, such as \<open>time.Local\<close>, is given by two functions of Go's zone lookup, which
  lies outside the repository: \<open>zoneOffset\<close>, the offset east of UTC, in seconds, in
  effect at a Unix time, which is used when the fields of an instant are read; and
  \<open>dateOffset\<close>, the offset that \<open>time.Date\<close> settles on for a wall-clock second
  count and subtracts from it. \<open>Date\<close> looks the zone up at the wall-clock count taken
  as a Unix time and, when the instant that this offset gives lies outside the period of
  the zone found, once more at that instant. Nothing is assumed of either function: they
  may change at zone transitions. In a zone without transitions both are one constant
  (\<open>fixedZone\<close>). \<open>absSec\<close> is the local wall-clock second count of an instant
  (Go's \<open>Time.abs\<close>).
\<close>

record location =
  zoneOffset :: "int \<Rightarrow> int"
  dateOffset :: "int \<Rightarrow> int"

definition fixedZone :: "int \<Rightarrow> location" where
  "fixedZone off = \<lparr>zoneOffset = (\<lambda>u. off), dateOffset = (\<lambda>a. off)\<rparr>"

definition absSec :: "location \<Rightarrow> int \<Rightarrow> int" where
  "absSec loc t = Unix t + zoneOffset loc (Unix t) + 62135596800"

definition absDate :: "int \<Rightarrow> int \<times> int \<times> int" where
  "absDate a =
     (let d = a div 86400; (year, yday) = absYear d; (month, day) = absMonthDay year yday
      in (year, month, day))"

definition Year :: "location \<Rightarrow> int \<Rightarrow> int" where
  "Year loc t = fst (absDate (absSec loc t))"

definition Month :: "location \<Rightarrow> int \<Rightarrow> int" where
  "Month loc t = fst (snd (absDate (absSec loc t)))"

definition Day :: "location \<Rightarrow> int \<Rightarrow> int" where
  "Day loc t = snd (snd (absDate (absSec loc t)))"

definition Weekday :: "location \<Rightarrow> int \<Rightarrow> int" where
  "Weekday loc t = ((absSec loc t + 1 * 86400) mod (7 * 86400)) div 86400"

text \<open>
  \<open>time.Date(year, month, day, hour, min, sec, 0, time.Local)\<close>: months overflow into
  years, seconds into minutes, minutes into hours, hours into days (\<open>norm\<close>); the day
  is added to the days before the month without being normalised. This gives the
  wall-clock second count \<open>dateLocal\<close>, counted from 1 January 1970; \<open>Date\<close> subtracts
  from it the offset that the zone lookup yields for it. The result is an instant in
  nanoseconds.
\<close>

definition norm :: "int \<Rightarrow> int \<Rightarrow> int \<Rightarrow> int \<times> int" where
  "norm hi lo base = (hi + lo div base, lo mod base)"

definition dateLocal :: "int \<Rightarrow> int \<Rightarrow> int \<Rightarrow> int \<Rightarrow> int \<Rightarrow> int \<Rightarrow> int" where
  "dateLocal year month day hour mn sec =
     (let (year1, m) = norm year (month - 1) 12;
          (mn1, sec1) = norm mn sec 60;
          (hour1, mn2) = norm hour mn1 60;
          (day1, hour2) = norm day hour1 24;
          d = daysSinceEpoch year1 + daysBefore m
              + (if isLeap year1 \<and> m + 1 \<ge> 3 then 1 else 0) + (day1 - 1);
          a = d * 86400 + hour2 * 3600 + mn2 * 60 + sec1
      in a - 62135596800)"

definition Date :: "location \<Rightarrow> int \<Rightarrow> int \<Rightarrow> int \<Rightarrow> int \<Rightarrow> int \<Rightarrow> int \<Rightarrow> int" where
  "Date loc year month day hour mn sec =
     (let unix = dateLocal year month day hour mn sec
      in (unix - dateOffset loc unix) * 1000000000)"

text \<open>\<open>Time.AddDate\<close> on an instant with zero nanoseconds.\<close>

definition AddDate :: "location \<Rightarrow> int \<Rightarrow> int \<Rightarrow> int \<Rightarrow> int \<Rightarrow> int" where
  "AddDate loc t years months days =
     (let a = absSec loc t; (year, month, day) = absDate a;
          s = a mod 86400
      in Date loc (year + years) (month + months) (day + days)
           (s div 3600) (s mod 3600 div 60) (s mod 60))"

text \<open>The number of days of a month of the Gregorian calendar, and of a year.\<close>

definition daysIn :: "int \<Rightarrow> int \<Rightarrow> int" where
  "daysIn year month =
     (if month = 2 then (if isLeap year then 29 else 28)
      else if month = 4 \<or> month = 6 \<or> month = 9 \<or> month = 11 then 30 else 31)"

definition daysInYear :: "int \<Rightarrow> int" where
  "daysInYear y = (if isLeap y then 366 else 365)"

section \<open>The scheduler\<close>

subsection \<open>Data model\<close>

text \<open>
  \<open>Tasks\<close> is the struct of the same name. A \<open>FuncToExec\<close> is opaque: a value of the
  type parameter, \<open>None\<close> for \<open>nil\<close>. Go's \<open>int\<close>, \<open>int64\<close>,
  \<open>time.Weekday\<close> and \<open>time.Month\<close> fields are integers; the one place where the
  scheduler's arithmetic can leave 64 bits, the product of a duration and the interval,
  wraps (\<open>mulDuration\<close>).
\<close>

record 'f Tasks =
  Name :: string
  RunType :: string
  FrequencyInterval :: string
  FrequencyValue :: int
  ExecuteFunc :: "'f option"
  runAtHour :: string
  runAtMinute :: string
  isRunAt :: bool
  dayName :: int
  monthName :: int
  monthDay :: int
  nextRunTime :: int
  lastRunTime :: int
  created :: int

text \<open>
  A notification is one call of \<open>itrlog.Errorw\<close>, \<open>Infow\<close> or \<open>Warnw\<close> with the
  console line printed beside it. The message keeps the task name and the timestamp that
  \<open>formatDT\<close> renders, in place of the rendered text; \<open>logTime\<close> is the instant read
  for the \<open>log_time\<close> field.
\<close>

datatype level = Info | Warn | Error

datatype message =
  NextSchedule string int
| NotRunning string
| Reloading

record notification =
  lvl :: level
  msg :: message
  logTime :: int

text \<open>
  The state the package works on: the registry \<open>TS.TaskList\<close>, the successive readings
  of \<open>time.Now()\<close> with the number of readings taken so far, the location
  \<open>time.Local\<close>, the notifications emitted, and the goroutines started by \<open>Run\<close>
  (the callback, with the name of the task it was taken from).
  The builder's package variable \<open>TK\<close> is the task value passed along the call chain.
\<close>

record 'f world =
  TaskList :: "string \<rightharpoonup> 'f Tasks list"
  clock :: "nat \<Rightarrow> int"
  reads :: nat
  zone :: location
  emitted :: "notification list"
  spawned :: "(string \<times> 'f) list"

definition Now :: "'f world \<Rightarrow> int \<times> 'f world" where
  "Now w = (clock w (reads w), w\<lparr>reads := Suc (reads w)\<rparr>)"

definition notify :: "level \<Rightarrow> message \<Rightarrow> 'f world \<Rightarrow> 'f world" where
  "notify l m w =
     (let (t, w1) = Now w
      in w1\<lparr>emitted := emitted w1 @ [\<lparr>lvl = l, msg = m, logTime = t\<rparr>]\<rparr>)"

definition seconds' :: string where
  "seconds' = ''seconds''"

definition minutes' :: string where
  "minutes' = ''minutes''"

definition hours' :: string where
  "hours' = ''hours''"

definition onetime' :: string where
  "onetime' = ''onetime''"

definition frequently' :: string where
  "frequently' = ''frequently''"

definition daily' :: string where
  "daily' = ''daily''"

definition weekly' :: string where
  "weekly' = ''weekly''"

definition monthly' :: string where
  "monthly' = ''monthly''"

subsection \<open>The builder\<close>

definition Seconds :: "int \<Rightarrow> 'f Tasks \<Rightarrow> 'f Tasks" where
  "Seconds interval s =
     (let s1 = s\<lparr>FrequencyInterval := seconds'\<rparr>
      in if interval \<le> 0 then s1\<lparr>FrequencyValue := 1\<rparr>
         else s1\<lparr>FrequencyValue := interval\<rparr>)"

definition Minutes :: "int \<Rightarrow> 'f Tasks \<Rightarrow> 'f Tasks" where
  "Minutes interval s =
     (let s1 = s\<lparr>FrequencyInterval := minutes'\<rparr>
      in if interval \<le> 0 then s1\<lparr>FrequencyValue := 1\<rparr>
         else s1\<lparr>FrequencyValue := interval\<rparr>)"

definition Hours :: "int \<Rightarrow> 'f Tasks \<Rightarrow> 'f Tasks" where
  "Hours interval s =
     (let s1 = s\<lparr>FrequencyInterval := hours'\<rparr>
      in if interval \<le> 0 then s1\<lparr>FrequencyValue := 1\<rparr>
         else s1\<lparr>FrequencyValue := interval\<rparr>)"

text \<open>\<open>time.Sunday\<close> is 0, \<open>time.Monday\<close> 1, up to \<open>time.Saturday\<close>, 6.\<close>

definition Monday :: "'f Tasks \<Rightarrow> 'f Tasks" where
  "Monday s = s\<lparr>dayName := 1\<rparr>"

definition Tuesday :: "'f Tasks \<Rightarrow> 'f Tasks" where
  "Tuesday s = s\<lparr>dayName := 2\<rparr>"

definition Wednesday :: "'f Tasks \<Rightarrow> 'f Tasks" where
  "Wednesday s = s\<lparr>dayName := 3\<rparr>"

definition Thursday :: "'f Tasks \<Rightarrow> 'f Tasks" where
  "Thursday s = s\<lparr>dayName := 4\<rparr>"

definition Friday :: "'f Tasks \<Rightarrow> 'f Tasks" where
  "Friday s = s\<lparr>dayName := 5\<rparr>"

definition Saturday :: "'f Tasks \<Rightarrow> 'f Tasks" where
  "Saturday s = s\<lparr>dayName := 6\<rparr>"

definition Sunday :: "'f Tasks \<Rightarrow> 'f Tasks" where
  "Sunday s = s\<lparr>dayName := 0\<rparr>"

text \<open>
  \<open>getLastDayOfMonth\<close>: the last day of \<open>month\<close> in the current year is the day of
  the instant one month and minus one day after the first of the month.
\<close>

definition getLastDayOfMonth :: "int \<Rightarrow> int \<Rightarrow> 'f world \<Rightarrow> int \<times> 'f world" where
  "getLastDayOfMonth day month w =
     (let (now, w1) = Now w;
          currentYear = Year (zone w1) now;
          firstDayOfMonth = Date (zone w1) currentYear month 1 0 0 0;
          lastDayOfMonth = Day (zone w1) (AddDate (zone w1) firstDayOfMonth 0 1 (- 1))
      in (if day = 0 then lastDayOfMonth
          else if day > lastDayOfMonth then lastDayOfMonth
          else day, w1))"

definition Every :: "int \<Rightarrow> 'f Tasks \<Rightarrow> 'f world \<Rightarrow> 'f Tasks \<times> 'f world" where
  "Every day s w =
     (let (today, w1) = Now w;
          (lastDayOfMonth, w2) = getLastDayOfMonth day (Month (zone w1) today) w1
      in if day = 0 then (s\<lparr>monthDay := lastDayOfMonth\<rparr>, w2)
         else if day > lastDayOfMonth
         then (let (d, w3) = getLastDayOfMonth day (Month (zone w2) today) w2
               in (s\<lparr>monthDay := d\<rparr>, w3))
         else (s\<lparr>monthDay := day\<rparr>, w2))"

definition Get :: "'f world \<Rightarrow> string \<Rightarrow> 'f Tasks list \<times> bool" where
  "Get w taskName = (case TaskList w taskName of None \<Rightarrow> ([], False) | Some taskData \<Rightarrow> (taskData, True))"

text \<open>
  \<open>TaskName\<close>; \<open>uuid\<close> is the string that \<open>uuid.New().String()\<close> returns when it
  is called. The loop over the registered entries reads the clock once for each.
\<close>

definition TaskName :: "string \<Rightarrow> string \<Rightarrow> 'f world \<Rightarrow> 'f Tasks \<times> 'f world" where
  "TaskName uuid taskName0 w =
     (let newTaskName0 = TrimSpace taskName0;
          taskName = (if length newTaskName0 = 0 then uuid else taskName0);
          (payLoad, ok) = Get w taskName;
          (newTaskName, w1) =
             fold (\<lambda>e (n, v). let (t, v1) = Now v in (Name e @ ''_'' @ Sprintf_v (Unix t), v1))
               payLoad (newTaskName0, w);
          (t1, w2) = Now w1;
          (t2, w3) = Now w2
      in (\<lparr>Name = newTaskName, RunType = [], FrequencyInterval = [], FrequencyValue = 0,
           ExecuteFunc = None, runAtHour = [], runAtMinute = [], isRunAt = False,
           dayName = 0, monthName = Month (zone w2) t1, monthDay = 0, nextRunTime = 0,
           lastRunTime = 0, created = Unix t2\<rparr>, w3))"

definition Frequently :: "'f Tasks \<Rightarrow> 'f Tasks" where
  "Frequently s = s\<lparr>RunType := frequently'\<rparr>"

definition OneTime :: "int \<Rightarrow> 'f Tasks \<Rightarrow> 'f world \<Rightarrow> 'f Tasks \<times> 'f world" where
  "OneTime dt s w =
     (let s1 = s\<lparr>RunType := onetime'\<rparr>;
          (t, w1) = Now w;
          timeNow = Unix t
      in if dt < timeNow
         then (let (t', w2) = Now w1 in (s1\<lparr>nextRunTime := Unix (Add t' (24 * Hour))\<rparr>, w2))
         else (s1\<lparr>nextRunTime := dt\<rparr>, w1))"

definition Daily :: "'f Tasks \<Rightarrow> 'f Tasks" where
  "Daily s = s\<lparr>RunType := daily'\<rparr>"

definition Weekly :: "'f Tasks \<Rightarrow> 'f Tasks" where
  "Weekly s = s\<lparr>RunType := weekly'\<rparr>"

definition Monthly :: "'f Tasks \<Rightarrow> 'f Tasks" where
  "Monthly s = s\<lparr>RunType := monthly'\<rparr>"

definition At :: "string \<Rightarrow> 'f Tasks \<Rightarrow> 'f Tasks" where
  "At rt s =
     (if RunType s \<noteq> onetime' \<and> RunType s \<noteq> frequently'
      then (let s1 = s\<lparr>isRunAt := True\<rparr>; pTime = TrimSpace rt
            in if ContainsColon pTime
               then (if length pTime = 5
                     then s1\<lparr>runAtHour := Split0 pTime, runAtMinute := Split1 pTime\<rparr>
                     else s1\<lparr>runAtHour := ''00'', runAtMinute := ''00''\<rparr>)
               else s1\<lparr>runAtHour := ''00'', runAtMinute := ''00''\<rparr>)
      else s)"

definition ExecFunc :: "'f option \<Rightarrow> 'f Tasks \<Rightarrow> 'f Tasks" where
  "ExecFunc fn s = s\<lparr>ExecuteFunc := fn\<rparr>"

subsection \<open>Computing the next run\<close>

text \<open>
  The four recurring branches of the \<open>switch\<close> are written the same way in
  \<open>AddTask\<close> and in \<open>UpdateNextRunTime\<close>; each is one function here. Every
  \<open>time.Now()\<close> of the source is one reading of the clock, in the source's order.
\<close>

definition everyInterval :: "string \<Rightarrow> int \<Rightarrow> 'f Tasks \<Rightarrow> int \<times> 'f world \<Rightarrow> int \<times> 'f world" where
  "everyInterval unit d s nw =
     (if FrequencyInterval s = unit
      then (let (t, w1) = Now (snd nw)
            in (Unix (Add t (mulDuration d (FrequencyValue s))), w1))
      else nw)"

definition nextFrequently :: "'f Tasks \<Rightarrow> 'f world \<Rightarrow> int \<times> 'f world" where
  "nextFrequently s w =
     everyInterval hours' Hour s
       (everyInterval minutes' Minute s
         (everyInterval seconds' Second s (0, w)))"

definition nextDaily :: "'f Tasks \<Rightarrow> 'f world \<Rightarrow> int \<times> 'f world" where
  "nextDaily s w =
     (let runHour = Atoi (runAtHour s);
          runMinute = Atoi (runAtMinute s);
          (t1, w1) = Now w;
          (t2, w2) = Now w1;
          (t3, w3) = Now w2
      in (Unix (Date (zone w) (Year (zone w) t1) (Month (zone w) t2) (Day (zone w) t3 + 1)
                  runHour runMinute 0), w3))"

definition nextWeekly :: "'f Tasks \<Rightarrow> 'f world \<Rightarrow> int \<times> 'f world" where
  "nextWeekly s w =
     (let runHour = Atoi (runAtHour s);
          runMinute = Atoi (runAtMinute s);
          (today, w1) = Now w
      in (Unix (Add (Date (zone w) (Year (zone w) today) (Month (zone w) today)
                       (Day (zone w) today - (Weekday (zone w) today - dayName s))
                       runHour runMinute 0)
                  (7 * 24 * Hour)), w1))"

definition nextMonthly :: "'f Tasks \<Rightarrow> 'f world \<Rightarrow> int \<times> 'f world" where
  "nextMonthly s w =
     (let runHour = Atoi (runAtHour s);
          runMinute = Atoi (runAtMinute s);
          (today, w1) = Now w
      in (Unix (Date (zone w) (Year (zone w) today) (Month (zone w) today + 1) (monthDay s)
                  runHour runMinute 0), w1))"

definition notRunning :: "'f Tasks \<Rightarrow> 'f world \<Rightarrow> int \<times> 'f world" where
  "notRunning s w = (0, notify Error (NotRunning (Name s)) w)"

subsection \<open>The registry and the poll loop\<close>

text \<open>The \<open>switch\<close> of \<open>AddTask\<close>, and the rest of the function.\<close>

definition switchAddTask :: "'f Tasks \<Rightarrow> 'f world \<Rightarrow> int \<times> 'f world" where
  "switchAddTask s w =
     (if RunType s = onetime' then (nextRunTime s, w)
      else if RunType s = frequently' then nextFrequently s w
      else if RunType s = daily' then nextDaily s w
      else if RunType s = weekly' then nextWeekly s w
      else if RunType s = monthly' then nextMonthly s w
      else notRunning s w)"

definition AddTask :: "'f Tasks \<Rightarrow> 'f world \<Rightarrow> 'f world" where
  "AddTask s w =
     (let (nextSchedToRun, w1) = switchAddTask s w;
          w2 = notify Info (NextSchedule (Name s) nextSchedToRun) w1;
          (t, w3) = Now w2;
          newTask = \<lparr>Name = Name s, RunType = RunType s,
            FrequencyInterval = FrequencyInterval s, FrequencyValue = FrequencyValue s,
            ExecuteFunc = ExecuteFunc s, runAtHour = runAtHour s, runAtMinute = runAtMinute s,
            isRunAt = isRunAt s, dayName = 0, monthName = monthName s, monthDay = monthDay s,
            nextRunTime = nextSchedToRun, lastRunTime = 0, created = Unix t\<rparr>
      in w3\<lparr>TaskList := (TaskList w3)(Name s \<mapsto> [newTask])\<rparr>)"

text \<open>
  The \<open>switch\<close> of \<open>UpdateNextRunTime\<close> has no case for a one-time task, which
  therefore takes the \<open>default\<close> branch.
\<close>

definition switchUpdate :: "'f Tasks \<Rightarrow> 'f world \<Rightarrow> int \<times> 'f world" where
  "switchUpdate s w =
     (if RunType s = frequently' then nextFrequently s w
      else if RunType s = daily' then nextDaily s w
      else if RunType s = weekly' then nextWeekly s w
      else if RunType s = monthly' then nextMonthly s w
      else notRunning s w)"

definition UpdateNextRunTime :: "'f Tasks \<Rightarrow> 'f world \<Rightarrow> 'f world" where
  "UpdateNextRunTime s w =
     (let (nextSchedToRun, w1) = switchUpdate s w;
          w2 = (if RunType s \<noteq> onetime'
                then notify Info (NextSchedule (Name s) nextSchedToRun) w1 else w1);
          (t, w3) = Now w2;
          modTask = \<lparr>Name = Name s, RunType = RunType s,
            FrequencyInterval = FrequencyInterval s, FrequencyValue = FrequencyValue s,
            ExecuteFunc = ExecuteFunc s, runAtHour = runAtHour s, runAtMinute = runAtMinute s,
            isRunAt = isRunAt s, dayName = 0, monthName = monthName s, monthDay = monthDay s,
            nextRunTime = nextSchedToRun, lastRunTime = Unix t, created = 0\<rparr>
      in w3\<lparr>TaskList := (TaskList w3)(Name s \<mapsto> [modTask])\<rparr>)"

definition Reset :: "'f world \<Rightarrow> 'f world" where
  "Reset w = notify Warn Reloading (w\<lparr>TaskList := Map.empty\<rparr>)"

text \<open>
  One entry of a sweep. Starting a goroutine on a \<open>nil\<close> function value ends the
  process.
\<close>

datatype fatal = NilFunc

definition visit :: "'f Tasks \<Rightarrow> 'f world \<Rightarrow> fatal + 'f world" where
  "visit s w =
     (let (t, w1) = Now w;
          unixTimeNow = Unix t
      in if nextRunTime s = unixTimeNow
         then (let w2 = UpdateNextRunTime s w1
               in case ExecuteFunc s of
                    None \<Rightarrow> Inl NilFunc
                  | Some f \<Rightarrow> Inr (w2\<lparr>spawned := spawned w2 @ [(Name s, f)]\<rparr>))
         else Inr w1)"

fun visitAll :: "'f Tasks list \<Rightarrow> 'f world \<Rightarrow> fatal + 'f world" where
  "visitAll [] w = Inr w"
| "visitAll (s # e) w = (case visit s w of Inl x \<Rightarrow> Inl x | Inr w1 \<Rightarrow> visitAll e w1)"

text \<open>
  One sweep over the registry. Go leaves the order of a map iteration open: \<open>ks\<close> is
  the order in which this sweep meets the keys. Each key's slice is read when the key is
  reached.
\<close>

fun sweep :: "string list \<Rightarrow> 'f world \<Rightarrow> fatal + 'f world" where
  "sweep [] w = Inr w"
| "sweep (k # ks) w =
     (case TaskList w k of
        None \<Rightarrow> sweep ks w
      | Some e \<Rightarrow> (case visitAll e w of Inl x \<Rightarrow> Inl x | Inr w1 \<Rightarrow> sweep ks w1))"

text \<open>
  \<open>Run\<close>: sweep, sleep, poll the channel \<open>ChannelTS\<close>, until a message arrives; then
  \<open>Reset\<close>. The argument lists, for each iteration, the key order of its sweep and
  whether a message is waiting after it. The loop has no other exit: when the list ends
  without a message the loop is still running, and the result is \<open>None\<close>.
\<close>

fun Run :: "(string list \<times> bool) list \<Rightarrow> 'f world \<Rightarrow> (fatal + 'f world) option" where
  "Run [] w = None"
| "Run ((ks, message) # rest) w =
     (case sweep ks w of
        Inl x \<Rightarrow> Some (Inl x)
      | Inr w1 \<Rightarrow> if message then Some (Inr (Reset w1)) else Run rest w1)"

subsection \<open>Calendar notions used in the statements\<close>

text \<open>
  The local calendar day of an instant, counted from 1 January 1970; the number of the
  day \<open>d\<close> of month \<open>m\<close> of year \<open>y\<close>, counted from 1 January of year 1; and the
  first day (Sunday) of the week an instant lies in.
\<close>

definition localDay :: "location \<Rightarrow> int \<Rightarrow> int" where
  "localDay loc t = (Unix t + zoneOffset loc (Unix t)) div 86400"

definition dayNumber :: "int \<Rightarrow> int \<Rightarrow> int \<Rightarrow> int" where
  "dayNumber y m d =
     daysSinceEpoch y + daysBefore (m - 1) + (if isLeap y \<and> 3 \<le> m then 1 else 0) + (d - 1)"

definition weekStart :: "location \<Rightarrow> int \<Rightarrow> int" where
  "weekStart loc t = localDay loc t - Weekday loc t"

text \<open>
  The wall-clock second count of \<open>h:mi\<close> on local day \<open>d\<close>, and the Unix time that
  \<open>Date\<close> gives it in a location.
\<close>

definition localSecs :: "int \<Rightarrow> int \<Rightarrow> int \<Rightarrow> int" where
  "localSecs d h mi = d * 86400 + h * 3600 + mi * 60"

definition atDay :: "location \<Rightarrow> int \<Rightarrow> int \<Rightarrow> int \<Rightarrow> int" where
  "atDay loc d h mi = localSecs d h mi - dateOffset loc (localSecs d h mi)"

text \<open>
  A wall-clock second count reads back in a location when the instant that \<open>Date\<close>
  builds for it shows that very wall-clock time, which fails only for a time that a zone
  transition skips. It is not later in the zone than the present when its offset does not
  exceed the offset in effect at the current clock reading, which fails when the clocks are
  put forward in between, or were put back before now.
\<close>

definition readsBack :: "location \<Rightarrow> int \<Rightarrow> bool" where
  "readsBack loc a \<longleftrightarrow> zoneOffset loc (a - dateOffset loc a) = dateOffset loc a"

definition notLater :: "'f world \<Rightarrow> int \<Rightarrow> bool" where
  "notLater w a \<longleftrightarrow> dateOffset (zone w) a \<le> zoneOffset (zone w) (Unix (clock w (reads w)))"

text \<open>
  Following the specification's words for the weekly rule: the local day of the most
  recent occurrence, today included, of weekday \<open>dn\<close>.
\<close>

definition mostRecentOccurrence :: "location \<Rightarrow> int \<Rightarrow> int \<Rightarrow> int" where
  "mostRecentOccurrence loc t dn = localDay loc t - (Weekday loc t - dn) mod 7"

text \<open>
  The configurations for which the next run is shown to lie in the future: an interval
  task with a unit, a positive interval and a duration that fits 64 bits; a daily or
  weekly task with a non-negative hour and minute (and a weekday field from 0 on, as the
  weekday setters store it); a monthly task with such a time and a day of the month from
  1 on; for the last three, the scheduled wall-clock time being not later in the zone
  than the present. For the weekly rule that time is the one on the target day of the
  current week, to which the 7 times 24 hours are added.
\<close>

definition wellConfigured :: "'f Tasks \<Rightarrow> 'f world \<Rightarrow> bool" where
  "wellConfigured s w \<longleftrightarrow>
     (RunType s = frequently' \<and> 0 < FrequencyValue s \<and>
        ((FrequencyInterval s = seconds' \<and> FrequencyValue s * 1 * 1000000000 < 2 ^ 63) \<or>
         (FrequencyInterval s = minutes' \<and> FrequencyValue s * 60 * 1000000000 < 2 ^ 63) \<or>
         (FrequencyInterval s = hours' \<and> FrequencyValue s * 3600 * 1000000000 < 2 ^ 63))) \<or>
     (RunType s = daily' \<and> 0 \<le> Atoi (runAtHour s) \<and> 0 \<le> Atoi (runAtMinute s) \<and>
        notLater w (localSecs (localDay (zone w) (clock w (reads w)) + 1)
          (Atoi (runAtHour s)) (Atoi (runAtMinute s)))) \<or>
     (RunType s = weekly' \<and> 0 \<le> dayName s \<and>
        0 \<le> Atoi (runAtHour s) \<and> 0 \<le> Atoi (runAtMinute s) \<and>
        notLater w (localSecs (weekStart (zone w) (clock w (reads w)) + dayName s)
          (Atoi (runAtHour s)) (Atoi (runAtMinute s)))) \<or>
     (RunType s = monthly' \<and> 1 \<le> monthDay s \<and>
        0 \<le> Atoi (runAtHour s) \<and> 0 \<le> Atoi (runAtMinute s) \<and>
        notLater w (dateLocal (Year (zone w) (clock w (reads w)))
          (Month (zone w) (clock w (reads w)) + 1) (monthDay s)
          (Atoi (runAtHour s)) (Atoi (runAtMinute s)) 0))"

text \<open>
  Every task registered under the keys \<open>ks\<close> has a callback.
\<close>

definition callbacks :: "string list \<Rightarrow> 'f world \<Rightarrow> bool" where
  "callbacks ks w \<longleftrightarrow>
     list_all (\<lambda>k. case TaskList w k of None \<Rightarrow> True
                   | Some es \<Rightarrow> list_all (\<lambda>e. ExecuteFunc e \<noteq> None) es) ks"

text \<open>
  The levels and messages of the notifications, and the task names of the goroutines,
  added between two states.
\<close>

definition emittedSince :: "'f world \<Rightarrow> 'f world \<Rightarrow> (level \<times> message) list" where
  "emittedSince w w' = map (\<lambda>n. (lvl n, msg n)) (drop (length (emitted w)) (emitted w'))"

definition startedSince :: "'f world \<Rightarrow> 'f world \<Rightarrow> (string \<times> 'f) list" where
  "startedSince w w' = drop (length (spawned w)) (spawned w')"

text \<open>
  The registry is keyed by name over the keys \<open>ks\<close>: each of them that is present holds
  one entry, whose \<open>Name\<close> is the key. \<open>AddTask\<close> and \<open>UpdateNextRunTime\<close> write such
  entries only.
\<close>

definition keyed :: "string list \<Rightarrow> 'f world \<Rightarrow> bool" where
  "keyed ks w \<longleftrightarrow>
     list_all (\<lambda>k. case TaskList w k of None \<Rightarrow> True
                   | Some es \<Rightarrow> (case es of [e] \<Rightarrow> Name e = k | _ \<Rightarrow> False)) ks"

subsection \<open>Example values\<close>

text \<open>
  A clock standing at Monday 1 January 2024, 12:00:00 UTC, in a UTC zone with an empty
  registry; the zero \<open>Tasks\<close> value; the registry after
  \<open>TaskName("backup").Frequently().Seconds(7).ExecFunc(f).AddTask()\<close>.
\<close>

definition noon :: int where
  "noon = 1704110400 * 1000000000"

definition world0 :: "nat world" where
  "world0 = \<lparr>TaskList = Map.empty, clock = (\<lambda>n. noon), reads = 0, zone = fixedZone 0,
     emitted = [], spawned = []\<rparr>"

definition zeroTask :: "nat Tasks" where
  "zeroTask = \<lparr>Name = [], RunType = [], FrequencyInterval = [], FrequencyValue = 0,
     ExecuteFunc = None, runAtHour = [], runAtMinute = [], isRunAt = False, dayName = 0,
     monthName = 0, monthDay = 0, nextRunTime = 0, lastRunTime = 0, created = 0\<rparr>"

definition backupTask :: "nat Tasks" where
  "backupTask = zeroTask\<lparr>Name := ''backup'', RunType := frequently',
     FrequencyInterval := seconds', FrequencyValue := 7, ExecuteFunc := Some 1, monthName := 1\<rparr>"

definition world1 :: "nat world" where
  "world1 = AddTask backupTask world0"

definition fridayTask :: "nat Tasks" where
  "fridayTask = At ''17:30'' (Friday (Weekly (zeroTask\<lparr>Name := ''report'', ExecuteFunc := Some 2\<rparr>)))"

definition hugeTask :: "nat Tasks" where
  "hugeTask = Hours 2562048 (Frequently (zeroTask\<lparr>Name := ''archive'', ExecuteFunc := Some 3\<rparr>))"

definition unitlessTask :: "nat Tasks" where
  "unitlessTask = Frequently (zeroTask\<lparr>Name := ''ping'', ExecuteFunc := Some 4\<rparr>)"

definition onceTask :: "nat Tasks" where
  "onceTask = fst (OneTime 1704114000 (zeroTask\<lparr>Name := ''once'', ExecuteFunc := Some 5\<rparr>) world0)"

definition dailyTask :: "nat Tasks" where
  "dailyTask = At ''14:18'' (Daily (zeroTask\<lparr>Name := ''digest'', ExecuteFunc := Some 6\<rparr>))"

definition monthlyTask :: "nat Tasks" where
  "monthlyTask =
     At ''09:30'' (Monthly (zeroTask\<lparr>Name := ''invoice'', ExecuteFunc := Some 7, monthDay := 31\<rparr>))"

definition unnamedRule :: "nat Tasks" where
  "unnamedRule = ExecFunc (Some 8) (zeroTask\<lparr>Name := ''cleanup''\<rparr>)"

definition sweepWorld :: "nat world" where
  "sweepWorld = (AddTask unnamedRule world1)\<lparr>clock := (\<lambda>n. 1704110407 * 1000000000)\<rparr>"

text \<open>
  A task committed without a callback, and the registry holding it at the second it is
  due. New York around the end of daylight-saving time on 3 November 2024 (06:00 UTC,
  1730613600), with a clock at Saturday 9 November, 23:30 local time, and a task for
  Sundays at 00:15; \<open>Date\<close> takes a wall-clock time before 02:00 of 3 November as
  daylight-saving time. Havana around the start of daylight-saving time on 10 March 2024
  (05:00 UTC, 1710046800, local midnight), with a clock at 9 March, 23:30 local time, and
  a daily task for 00:15; \<open>Date\<close> takes a wall-clock time from 00:00 of 10 March on as
  daylight-saving time, the skipped hour included.
  A clock that passes midnight between 31 January and 1 February 2024 after two readings.
  A clock at 31 January 2024, 12:00 UTC, and a monthly task for which \<open>Every\<close> was not
  called. A daily task with the time \<open>-13:0\<close>, and an interval task with a unit and the
  interval 0.
\<close>

definition silentTask :: "nat Tasks" where
  "silentTask = Seconds 7 (Frequently (zeroTask\<lparr>Name := ''silent''\<rparr>))"

definition silentWorld :: "nat world" where
  "silentWorld = (AddTask silentTask world0)\<lparr>clock := (\<lambda>n. 1704110407 * 1000000000)\<rparr>"

definition newYork :: location where
  "newYork = \<lparr>zoneOffset = (\<lambda>u. if u < 1730613600 then - 14400 else - 18000),
     dateOffset = (\<lambda>a. if a < 1730599200 then - 14400 else - 18000)\<rparr>"

definition newYorkWorld :: "nat world" where
  "newYorkWorld = world0\<lparr>clock := (\<lambda>n. 1731213000 * 1000000000), zone := newYork\<rparr>"

definition sundayTask :: "nat Tasks" where
  "sundayTask = At ''00:15'' (Sunday (Weekly (zeroTask\<lparr>Name := ''review'', ExecuteFunc := Some 9\<rparr>)))"

definition havana :: location where
  "havana = \<lparr>zoneOffset = (\<lambda>u. if u < 1710046800 then - 18000 else - 14400),
     dateOffset = (\<lambda>a. if a < 1710028800 then - 18000 else - 14400)\<rparr>"

definition havanaWorld :: "nat world" where
  "havanaWorld = world0\<lparr>clock := (\<lambda>n. 1710045000 * 1000000000), zone := havana\<rparr>"

definition midnightTask :: "nat Tasks" where
  "midnightTask = At ''00:15'' (Daily (zeroTask\<lparr>Name := ''rollover'', ExecuteFunc := Some 13\<rparr>))"

definition midnightWorld :: "nat world" where
  "midnightWorld = world0\<lparr>clock :=
     (\<lambda>n. if n < 2 then 1706745599 * 1000000000 else 1706745600 * 1000000000)\<rparr>"

definition monthEndWorld :: "nat world" where
  "monthEndWorld = world0\<lparr>clock := (\<lambda>n. 1706702400 * 1000000000)\<rparr>"

definition dayLessTask :: "nat Tasks" where
  "dayLessTask = At ''09:30'' (Monthly (zeroTask\<lparr>Name := ''report'', ExecuteFunc := Some 10\<rparr>))"

definition earlyTask :: "nat Tasks" where
  "earlyTask = At ''-13:0'' (Daily (zeroTask\<lparr>Name := ''early'', ExecuteFunc := Some 11\<rparr>))"

definition zeroIntervalTask :: "nat Tasks" where
  "zeroIntervalTask =
     (Frequently (zeroTask\<lparr>Name := ''idle'', ExecuteFunc := Some 12\<rparr>))\<lparr>FrequencyInterval := seconds'\<rparr>"

section \<open>Properties\<close>

subsection \<open>The calendar\<close>

text \<open>
  The year and day of the year computed by \<open>absYear\<close> invert \<open>daysSinceEpoch\<close>, the
  month and day computed by \<open>absMonthDay\<close> invert \<open>daysBefore\<close>, and a date built by
  \<open>Date\<close> from the fields of an instant falls on that instant's local day.
\<close>

lemma div_bounds:
  fixes x k :: int
  assumes "0 < k"
  shows "k * (x div k) \<le> x" and "x < k * (x div k) + k"
proof -
  have "x = k * (x div k) + x mod k" by simp
  moreover have "0 \<le> x mod k" "x mod k < k" using assms by simp_all
  ultimately show "k * (x div k) \<le> x" and "x < k * (x div k) + k" by linarith+
qed

lemma div_unique:
  fixes x k q :: int
  assumes "k * q \<le> x" "x < k * q + k" "0 < k"
  shows "x div k = q"
  using int_div_pos_eq [of x k q "x - k * q"] assms by simp

lemma shift_small:
  fixes n :: int
  assumes "0 \<le> n" "n \<le> 4"
  shows "n - n div 4 = (if n = 4 then 3 else n)"
proof -
  from assms have "n = 0 \<or> n = 1 \<or> n = 2 \<or> n = 3 \<or> n = 4" by linarith
  then show ?thesis by auto
qed

lemma absYear_sound:
  assumes "absYear d = (y, yd)"
  shows "daysSinceEpoch y + yd = d" and "0 \<le> yd" and "yd < (if isLeap y then 366 else 365)"
proof -
  define a where "a = d div 146097"
  define d1 where "d1 = d - 146097 * a"
  define b' where "b' = d1 div 36524"
  define b where "b = b' - b' div 4"
  define d2 where "d2 = d1 - 36524 * b"
  define c where "c = d2 div 1461"
  define d3 where "d3 = d2 - 1461 * c"
  define e' where "e' = d3 div 365"
  define e where "e = e' - e' div 4"
  define d4 where "d4 = d3 - 365 * e"
  have "absYear d = (400 * a + 100 * b + 4 * c + e + 1, d4)"
    unfolding absYear_def Let_def a_def [symmetric] d1_def [symmetric] b'_def [symmetric]
      b_def [symmetric] d2_def [symmetric] c_def [symmetric] d3_def [symmetric]
      e'_def [symmetric] e_def [symmetric] d4_def [symmetric] ..
  with assms have y: "y = 400 * a + 100 * b + 4 * c + e + 1" and yd: "yd = d4"
    by simp_all
  have a: "146097 * a \<le> d" "d < 146097 * a + 146097"
    unfolding a_def by (rule div_bounds; simp)+
  have d1: "0 \<le> d1" "d1 < 146097"
    using a unfolding d1_def by linarith+
  have b': "36524 * b' \<le> d1" "d1 < 36524 * b' + 36524"
    unfolding b'_def by (rule div_bounds; simp)+
  have b'r: "0 \<le> b'" "b' \<le> 4" using d1 b' by linarith+
  have b: "b = (if b' = 4 then 3 else b')" unfolding b_def using shift_small [OF b'r] .
  have br: "0 \<le> b" "b \<le> 3" using b b'r by (auto split: if_splits)
  have d2: "0 \<le> d2" "d2 \<le> 36524" "b < 3 \<Longrightarrow> d2 < 36524"
    using b b' b'r d1 unfolding d2_def by (auto split: if_splits)
  have c: "1461 * c \<le> d2" "d2 < 1461 * c + 1461"
    unfolding c_def by (rule div_bounds; simp)+
  have cr: "0 \<le> c" "c \<le> 24" using c d2 by linarith+
  have d3: "0 \<le> d3" "d3 < 1461" using c unfolding d3_def by linarith+
  have e': "365 * e' \<le> d3" "d3 < 365 * e' + 365"
    unfolding e'_def by (rule div_bounds; simp)+
  have e'r: "0 \<le> e'" "e' \<le> 4" using d3 e' by linarith+
  have e: "e = (if e' = 4 then 3 else e')" unfolding e_def using shift_small [OF e'r] .
  have er: "0 \<le> e" "e \<le> 3" using e e'r by (auto split: if_splits)
  have d4: "0 \<le> d4" "d4 \<le> 365" "e < 3 \<Longrightarrow> d4 < 365"
    using e e' e'r d3 unfolding d4_def by (auto split: if_splits)
  have dsum: "d = 146097 * a + 36524 * b + 1461 * c + 365 * e + d4"
    unfolding d4_def d3_def d2_def d1_def by simp
  have q400: "(y - 1) div 400 = a"
    by (rule div_unique) (use y br cr er in linarith)+
  have q100: "(y - 1 - 400 * a) div 100 = b"
    by (rule div_unique) (use y br cr er in linarith)+
  have q4: "(y - 1 - 400 * a - 100 * b) div 4 = c"
    by (rule div_unique) (use y br cr er in linarith)+
  have dse: "daysSinceEpoch y = 146097 * a + 36524 * b + 1461 * c + 365 * e"
    unfolding daysSinceEpoch_def Let_def q400 q100 q4 using y by simp
  show "daysSinceEpoch y + yd = d" using dse dsum yd by simp
  show "0 \<le> yd" using d4 yd by simp
  show "yd < (if isLeap y then 366 else 365)"
  proof (cases "d4 = 365")
    case False
    then show ?thesis using d4 yd by auto
  next
    case True
    then have e3: "e = 3" using d4(3) er by linarith
    have "d3 = 1460" using True e3 d3 unfolding d4_def by linarith
    have y4: "y = 4 * (100 * a + 25 * b + c + 1)" using y e3 by simp
    have m4: "y mod 4 = 0" unfolding y4 by simp
    have "y mod 100 \<noteq> 0 \<or> y mod 400 = 0"
    proof (cases "c = 24")
      case True
      have "d2 = 36524" using \<open>d3 = 1460\<close> True unfolding d3_def by simp
      then have "b = 3" using d2(3) br by linarith
      then have "y = 400 * (a + 1)" using y e3 True by simp
      then show ?thesis by simp
    next
      case False
      have "y = 100 * (4 * a + b) + (4 * c + 4)" using y4 by simp
      then have "y mod 100 = (4 * c + 4) mod 100"
        by (metis mod_mult_self4)
      also have "\<dots> = 4 * c + 4" using cr False by simp
      finally show ?thesis using cr by simp
    qed
    then have "isLeap y" using m4 by (simp add: isLeap_def)
    then show ?thesis using True yd by simp
  qed
qed

lemma daysBefore_simps [simp]:
  "daysBefore 0 = 0" "daysBefore 1 = 31" "daysBefore 2 = 59" "daysBefore 3 = 90"
  "daysBefore 4 = 120" "daysBefore 5 = 151" "daysBefore 6 = 181" "daysBefore 7 = 212"
  "daysBefore 8 = 243" "daysBefore 9 = 273" "daysBefore 10 = 304" "daysBefore 11 = 334"
  "daysBefore 12 = 365"
  by (simp_all add: daysBefore_def)

lemma daysIn_simps [simp]:
  "daysIn y 1 = 31" "daysIn y 2 = (if isLeap y then 29 else 28)" "daysIn y 3 = 31"
  "daysIn y 4 = 30" "daysIn y 5 = 31" "daysIn y 6 = 30" "daysIn y 7 = 31" "daysIn y 8 = 31"
  "daysIn y 9 = 30" "daysIn y 10 = 31" "daysIn y 11 = 30" "daysIn y 12 = 31"
  by (simp_all add: daysIn_def)

lemma absMonthDay_sound:
  assumes "absMonthDay y yd = (m, dd)" "0 \<le> yd" "yd < (if isLeap y then 366 else 365)"
  shows "1 \<le> m \<and> m \<le> 12 \<and> 1 \<le> dd \<and> dd \<le> daysIn y m \<and>
         daysBefore (m - 1) + (if isLeap y \<and> 3 \<le> m then 1 else 0) + (dd - 1) = yd"
proof (cases "isLeap y \<and> yd = 59")
  case True
  then show ?thesis using assms by (simp add: absMonthDay_def)
next
  case False
  define day where "day = (if isLeap y \<and> yd > 31 + 29 - 1 then yd - 1 else yd)"
  define q where "q = day div 31"
  have dr: "0 \<le> day" "day < 365" using assms(2,3) unfolding day_def by (auto split: if_splits)
  have rel: "(isLeap y \<and> 59 \<le> day \<and> yd = day + 1) \<or> (isLeap y \<and> day < 59 \<and> yd = day)
      \<or> (\<not> isLeap y \<and> yd = day)"
    using False unfolding day_def by (auto split: if_splits)
  have q: "31 * q \<le> day" "day < 31 * q + 31" using div_bounds [of 31 day] unfolding q_def by simp_all
  have "0 \<le> q" "q \<le> 11" using q dr by linarith+
  then have qc: "q = 0 \<or> q = 1 \<or> q = 2 \<or> q = 3 \<or> q = 4 \<or> q = 5 \<or> q = 6 \<or> q = 7 \<or> q = 8
      \<or> q = 9 \<or> q = 10 \<or> q = 11" by presburger
  have ne: "(isLeap y \<and> yd = 31 + 29 - 1) = False" using False by simp
  have md: "(m, dd) = (if day \<ge> daysBefore (q + 1) then (q + 2, day - daysBefore (q + 1) + 1)
              else (q + 1, day - daysBefore q + 1))"
    using assms(1) unfolding absMonthDay_def Let_def day_def [symmetric] q_def [symmetric] ne if_False
    by simp
  have m: "m = (if day \<ge> daysBefore (q + 1) then q + 2 else q + 1)"
    and dd: "dd = (if day \<ge> daysBefore (q + 1) then day - daysBefore (q + 1) + 1 else day - daysBefore q + 1)"
    using md by (simp_all split: if_splits)
  from qc show ?thesis
  proof (elim disjE)
    assume "q = 0" then show ?thesis using m dd q rel by (cases "day \<ge> 31") auto
  next
    assume "q = 1" then show ?thesis using m dd q rel by (cases "day \<ge> 59") auto
  next
    assume "q = 2" then show ?thesis using m dd q rel by (cases "day \<ge> 90") auto
  next
    assume "q = 3" then show ?thesis using m dd q rel by (cases "day \<ge> 120") auto
  next
    assume "q = 4" then show ?thesis using m dd q rel by (cases "day \<ge> 151") auto
  next
    assume "q = 5" then show ?thesis using m dd q rel by (cases "day \<ge> 181") auto
  next
    assume "q = 6" then show ?thesis using m dd q rel by (cases "day \<ge> 212") auto
  next
    assume "q = 7" then show ?thesis using m dd q rel by (cases "day \<ge> 243") auto
  next
    assume "q = 8" then show ?thesis using m dd q rel by (cases "day \<ge> 273") auto
  next
    assume "q = 9" then show ?thesis using m dd q rel by (cases "day \<ge> 304") auto
  next
    assume "q = 10" then show ?thesis using m dd q rel by (cases "day \<ge> 334") auto
  next
    assume "q = 11" then show ?thesis using m dd q rel dr by (cases "day \<ge> 365") auto
  qed
qed

lemma daysSinceEpoch_closed:
  "daysSinceEpoch y = 365 * (y - 1) + (y - 1) div 4 - (y - 1) div 100 + (y - 1) div 400"
proof -
  define z where "z = y - 1"
  define a where "a = z div 400"
  define r where "r = z - 400 * a"
  define b where "b = r div 100"
  define r2 where "r2 = r - 100 * b"
  define c where "c = r2 div 4"
  define e where "e = r2 - 4 * c"
  have r: "0 \<le> r" "r < 400" using div_bounds [of 400 z] unfolding r_def a_def by simp_all
  have b: "100 * b \<le> r" "r < 100 * b + 100" using div_bounds [of 100 r] unfolding b_def by simp_all
  have r2: "0 \<le> r2" "r2 < 100" using b unfolding r2_def by linarith+
  have c: "4 * c \<le> r2" "r2 < 4 * c + 4" using div_bounds [of 4 r2] unfolding c_def by simp_all
  have e: "0 \<le> e" "e < 4" using c unfolding e_def by linarith+
  have z: "z = 400 * a + 100 * b + 4 * c + e" unfolding e_def r2_def r_def by simp
  have q4: "z div 4 = 100 * a + 25 * b + c" by (rule div_unique) (use z e in simp_all)
  have q100: "z div 100 = 4 * a + b" by (rule div_unique) (use z r2 c e e_def in simp_all)
  have "daysSinceEpoch y = 146097 * a + 36524 * b + 1461 * c + 365 * e"
    unfolding daysSinceEpoch_def Let_def z_def [symmetric] a_def [symmetric] r_def [symmetric]
      b_def [symmetric] r2_def [symmetric] c_def [symmetric] e_def [symmetric] by simp
  also have "\<dots> = 365 * z + z div 4 - z div 100 + z div 400"
    unfolding q4 q100 a_def [symmetric] using z by simp
  finally show ?thesis unfolding z_def .
qed

lemma div_step:
  fixes x k :: int
  assumes "0 < k"
  shows "x div k = (x - 1) div k + (if x mod k = 0 then 1 else 0)"
proof -
  define q where "q = x div k"
  define r where "r = x mod k"
  have x: "x = k * q + r" and r: "0 \<le> r" "r < k"
    using assms unfolding q_def r_def by simp_all
  show ?thesis
  proof (cases "r = 0")
    case True
    have "(x - 1) div k = q - 1"
      using assms x True by (intro div_unique) (simp_all add: algebra_simps)
    then show ?thesis using True unfolding q_def r_def by simp
  next
    case False
    have "(x - 1) div k = q"
      using assms x r False by (intro div_unique) simp_all
    then show ?thesis using False unfolding q_def r_def by simp
  qed
qed

lemma daysSinceEpoch_step: "daysSinceEpoch (y + 1) = daysSinceEpoch y + daysInYear y"
proof -
  define p4 where "p4 \<longleftrightarrow> y mod 4 = 0"
  define p100 where "p100 \<longleftrightarrow> y mod 100 = 0"
  define p400 where "p400 \<longleftrightarrow> y mod 400 = 0"
  have a: "p400 \<Longrightarrow> p100"
    unfolding p400_def p100_def using dvd_trans [of 100 400 y] by (simp add: mod_eq_0_iff_dvd)
  have b: "p100 \<Longrightarrow> p4"
    unfolding p4_def p100_def using dvd_trans [of 4 100 y] by (simp add: mod_eq_0_iff_dvd)
  define i4 :: int where "i4 = (if p4 then 1 else 0)"
  define i100 :: int where "i100 = (if p100 then 1 else 0)"
  define i400 :: int where "i400 = (if p400 then 1 else 0)"
  have s4: "y div 4 = (y - 1) div 4 + i4" unfolding i4_def p4_def by (rule div_step) simp
  have s100: "y div 100 = (y - 1) div 100 + i100" unfolding i100_def p100_def by (rule div_step) simp
  have s400: "y div 400 = (y - 1) div 400 + i400" unfolding i400_def p400_def by (rule div_step) simp
  have "daysSinceEpoch (y + 1) = 365 * y + y div 4 - y div 100 + y div 400"
    unfolding daysSinceEpoch_closed by simp
  also have "\<dots> = daysSinceEpoch y + 365 + i4 - i100 + i400"
    unfolding daysSinceEpoch_closed s4 s100 s400 by (simp add: algebra_simps)
  also have "\<dots> = daysSinceEpoch y + (if p4 \<and> (\<not> p100 \<or> p400) then 366 else 365)"
    using a b unfolding i4_def i100_def i400_def by (cases p4; cases p100; cases p400) simp_all
  also have "\<dots> = daysSinceEpoch y + daysInYear y"
    unfolding daysInYear_def isLeap_def p4_def p100_def p400_def by (simp only:)
  finally show ?thesis .
qed

lemma daysSinceEpoch_mono_aux: "daysSinceEpoch y + daysInYear y \<le> daysSinceEpoch (y + 1 + int n)"
proof (induction n)
  case 0
  then show ?case by (simp add: daysSinceEpoch_step)
next
  case (Suc n)
  have "daysSinceEpoch (y + 1 + int (Suc n)) = daysSinceEpoch ((y + 1 + int n) + 1)"
    by (simp add: add.assoc add.commute)
  also have "\<dots> = daysSinceEpoch (y + 1 + int n) + daysInYear (y + 1 + int n)"
    by (rule daysSinceEpoch_step)
  finally show ?case using Suc.IH by (simp add: daysInYear_def)
qed

lemma daysSinceEpoch_less:
  assumes "y < z"
  shows "daysSinceEpoch y + daysInYear y \<le> daysSinceEpoch z"
proof -
  have "z = y + 1 + int (nat (z - y - 1))" using assms by simp
  then show ?thesis using daysSinceEpoch_mono_aux [of y "nat (z - y - 1)"] by simp
qed

lemma year_unique:
  assumes "daysSinceEpoch y + k = daysSinceEpoch y' + k'"
    and "0 \<le> k" "k < daysInYear y" "0 \<le> k'" "k' < daysInYear y'"
  shows "y = y' \<and> k = k'"
proof -
  have "\<not> y < y'" using daysSinceEpoch_less [of y y'] assms by linarith
  moreover have "\<not> y' < y" using daysSinceEpoch_less [of y' y] assms by linarith
  ultimately have "y = y'" by simp
  then show ?thesis using assms(1) by simp
qed

lemma absYear_complete:
  assumes "0 \<le> k" "k < daysInYear y"
  shows "absYear (daysSinceEpoch y + k) = (y, k)"
proof -
  obtain y' k' where eq: "absYear (daysSinceEpoch y + k) = (y', k')" by (cases "absYear (daysSinceEpoch y + k)")
  from absYear_sound [OF eq] have "daysSinceEpoch y' + k' = daysSinceEpoch y + k" "0 \<le> k'" "k' < daysInYear y'"
    by (simp_all add: daysInYear_def)
  then have "y = y' \<and> k = k'" using year_unique [of y k y' k'] assms by simp
  then show ?thesis using eq by simp
qed

lemma norm_total:
  fixes d h mi s :: int
  shows "(d + (h + (mi + s div 60) div 60) div 24) * 86400
         + ((h + (mi + s div 60) div 60) mod 24) * 3600
         + ((mi + s div 60) mod 60) * 60 + s mod 60
         = d * 86400 + h * 3600 + mi * 60 + s"
proof -
  define s1 where "s1 = s div 60"
  define s2 where "s2 = s mod 60"
  define m1 where "m1 = (mi + s1) div 60"
  define m2 where "m2 = (mi + s1) mod 60"
  define h1 where "h1 = (h + m1) div 24"
  define h2 where "h2 = (h + m1) mod 24"
  have a: "s = 60 * s1 + s2" unfolding s1_def s2_def by simp
  have b: "mi + s1 = 60 * m1 + m2" unfolding m1_def m2_def by simp
  have c: "h + m1 = 24 * h1 + h2" unfolding h1_def h2_def by simp
  have "(d + h1) * 86400 + h2 * 3600 + m2 * 60 + s2 = d * 86400 + h * 3600 + mi * 60 + s"
    using a b c by (simp add: algebra_simps)
  then show ?thesis
    unfolding h1_def h2_def m1_def m2_def s1_def s2_def .
qed

lemma absSec_localDay: "absSec loc t div 86400 = localDay loc t + 719162"
proof -
  have "absSec loc t = (Unix t + zoneOffset loc (Unix t)) + 719162 * 86400"
    by (simp add: absSec_def)
  then show ?thesis unfolding localDay_def by (metis div_mult_self1 add.commute mult.commute zero_neq_numeral)
qed

lemma dateLocal_normalised:
  "dateLocal y m d h mi s =
     (daysSinceEpoch (y + (m - 1) div 12) + daysBefore ((m - 1) mod 12)
        + (if isLeap (y + (m - 1) div 12) \<and> (m - 1) mod 12 + 1 \<ge> 3 then 1 else 0) + (d - 1)
        - 719162) * 86400 + h * 3600 + mi * 60 + s"
proof -
  define day1 where "day1 = d + (h + (mi + s div 60) div 60) div 24"
  define hour2 where "hour2 = (h + (mi + s div 60) div 60) mod 24"
  define mn2 where "mn2 = (mi + s div 60) mod 60"
  define sec1 where "sec1 = s mod 60"
  define c where "c = daysSinceEpoch (y + (m - 1) div 12) + daysBefore ((m - 1) mod 12)
        + (if isLeap (y + (m - 1) div 12) \<and> (m - 1) mod 12 + 1 \<ge> 3 then 1 else 0)"
  have tot: "day1 * 86400 + hour2 * 3600 + mn2 * 60 + sec1 = d * 86400 + h * 3600 + mi * 60 + s"
    unfolding day1_def hour2_def mn2_def sec1_def by (rule norm_total)
  have "dateLocal y m d h mi s
      = (c + (day1 - 1)) * 86400 + hour2 * 3600 + mn2 * 60 + sec1 - 62135596800"
    unfolding dateLocal_def norm_def Let_def prod.case c_def day1_def hour2_def mn2_def sec1_def ..
  also have "\<dots> = (c + (d - 1) - 719162) * 86400 + h * 3600 + mi * 60 + s"
    using tot by (simp add: algebra_simps)
  finally show ?thesis unfolding c_def .
qed

lemma dateLocal_formula:
  assumes "1 \<le> m" "m \<le> 12"
  shows "dateLocal y m d h mi s =
     (dayNumber y m d - 719162) * 86400 + h * 3600 + mi * 60 + s"
proof -
  have q: "(m - 1) div 12 = 0" "(m - 1) mod 12 = m - 1" using assms by simp_all
  have "(m - 1 + 1 \<ge> 3) = (3 \<le> m)" by auto
  then show ?thesis unfolding dateLocal_normalised q dayNumber_def by simp
qed

lemma dateLocal_13:
  "dateLocal y 13 d h mi s =
     (daysSinceEpoch y + daysInYear y + (d - 1) - 719162) * 86400 + h * 3600 + mi * 60 + s"
  unfolding dateLocal_normalised by (simp add: daysSinceEpoch_step)

lemma Unix_scaled [simp]: "Unix (x * 1000000000) = x"
  by (simp add: Unix_def)

lemma Weekday_localDay: "Weekday loc t = (localDay loc t + 4) mod 7"
proof -
  define a where "a = absSec loc t + 86400"
  define q where "q = a div 86400"
  define r where "r = a mod 86400"
  define q7 where "q7 = q div 7"
  define r7 where "r7 = q mod 7"
  have a: "a = 86400 * q + r" and r: "0 \<le> r" "r < 86400" unfolding q_def r_def by simp_all
  have q: "q = 7 * q7 + r7" and r7: "0 \<le> r7" "r7 < 7" unfolding q7_def r7_def by simp_all
  have "a div 604800 = q7" by (rule div_unique) (use a r q r7 in linarith)+
  then have "a mod 604800 = a - 604800 * q7" by (simp add: minus_mult_div_eq_mod [symmetric])
  then have "a mod 604800 = 86400 * r7 + r" using a q by simp
  moreover have "(86400 * r7 + r) div 86400 = r7" by (rule div_unique) (use r in linarith)+
  ultimately have "a mod 604800 div 86400 = q mod 7" unfolding r7_def by simp
  moreover have "q = localDay loc t + 719163"
    unfolding q_def a_def using absSec_localDay [of loc t] by simp
  moreover have "(localDay loc t + 719163) mod 7 = (localDay loc t + 4) mod 7"
    using mod_mult_self2 [of "localDay loc t + 4" 7 102737] by (simp add: add.commute)
  ultimately show ?thesis unfolding Weekday_def a_def by simp
qed

lemma Unix_Date:
  "Unix (Date loc y m d h mi s) =
     dateLocal y m d h mi s - dateOffset loc (dateLocal y m d h mi s)"
  unfolding Date_def Let_def by (rule Unix_scaled)

lemma civil_today:
  "1 \<le> Month loc t \<and> Month loc t \<le> 12 \<and> 1 \<le> Day loc t \<and>
   Day loc t \<le> daysIn (Year loc t) (Month loc t) \<and>
   dayNumber (Year loc t) (Month loc t) (Day loc t) = localDay loc t + 719162"
proof -
  obtain y yd where ay: "absYear (absSec loc t div 86400) = (y, yd)"
    by (cases "absYear (absSec loc t div 86400)")
  obtain m dd where am: "absMonthDay y yd = (m, dd)"
    by (cases "absMonthDay y yd")
  have ymd: "Year loc t = y" "Month loc t = m" "Day loc t = dd"
    unfolding Year_def Month_def Day_def absDate_def Let_def ay prod.case am by simp_all
  note s = absYear_sound [OF ay]
  from absMonthDay_sound [OF am s(2) s(3)] s(1) show ?thesis
    unfolding ymd dayNumber_def absSec_localDay [symmetric] by simp
qed

lemma localDay_bounds:
  "localDay loc t * 86400 \<le> Unix t + zoneOffset loc (Unix t)"
  "Unix t + zoneOffset loc (Unix t) < localDay loc t * 86400 + 86400"
  unfolding localDay_def using div_bounds [of 86400 "Unix t + zoneOffset loc (Unix t)"]
  by (simp_all add: mult.commute)

lemma today_plus:
  "dateLocal (Year loc t) (Month loc t) (Day loc t + k) h mi 0
     = localSecs (localDay loc t + k) h mi"
proof -
  note c = civil_today [of loc t]
  have "dayNumber (Year loc t) (Month loc t) (Day loc t + k) = localDay loc t + 719162 + k"
    using c unfolding dayNumber_def by simp
  moreover have "dateLocal (Year loc t) (Month loc t) (Day loc t + k) h mi 0 =
     (dayNumber (Year loc t) (Month loc t) (Day loc t + k) - 719162) * 86400 + h * 3600 + mi * 60 + 0"
    using c by (intro dateLocal_formula) simp_all
  ultimately show ?thesis by (simp add: localSecs_def)
qed

lemma today_at:
  "Unix (Date loc (Year loc t) (Month loc t) d h mi 0)
     = atDay loc (localDay loc t + (d - Day loc t)) h mi"
  unfolding Unix_Date atDay_def using today_plus [of loc t "d - Day loc t" h mi] by simp

lemma month_start_next:
  assumes "1 \<le> m" "m \<le> 11" "dd \<le> daysIn y m"
  shows "daysBefore (m - 1) + (if isLeap y \<and> 3 \<le> m then 1 else 0) + dd
         \<le> daysBefore m + (if isLeap y \<and> 3 \<le> m + 1 then 1 else 0)"
proof -
  from assms(1,2) have "m = 1 \<or> m = 2 \<or> m = 3 \<or> m = 4 \<or> m = 5 \<or> m = 6 \<or> m = 7 \<or> m = 8
      \<or> m = 9 \<or> m = 10 \<or> m = 11" by presburger
  then show ?thesis using assms(3) by (elim disjE) (simp_all split: if_splits)
qed

lemma next_month:
  "localSecs (localDay loc t + md) h mi
     \<le> dateLocal (Year loc t) (Month loc t + 1) md h mi 0"
proof -
  define y where "y = Year loc t"
  define m where "m = Month loc t"
  define dd where "dd = Day loc t"
  have c: "1 \<le> m" "m \<le> 12" "1 \<le> dd" "dd \<le> daysIn y m"
    "dayNumber y m dd = localDay loc t + 719162"
    using civil_today [of loc t] unfolding y_def m_def dd_def by simp_all
  show ?thesis
  proof (cases "m = 12")
    case True
    have "localDay loc t + 719162 \<le> daysSinceEpoch y + daysInYear y - 1"
      using c(4,5) True unfolding dayNumber_def daysInYear_def by (simp split: if_splits)
    then show ?thesis
      unfolding y_def [symmetric] m_def [symmetric] True localSecs_def
      using dateLocal_13 [of y md h mi 0] by simp
  next
    case False
    then have m11: "m \<le> 11" using c(2) by simp
    have "localDay loc t + 719162 + md \<le> dayNumber y (m + 1) md"
      using month_start_next [OF c(1) m11 c(4)] c(5) unfolding dayNumber_def by simp
    moreover have "dateLocal y (m + 1) md h mi 0 =
        (dayNumber y (m + 1) md - 719162) * 86400 + h * 3600 + mi * 60 + 0"
      using c(1) m11 by (intro dateLocal_formula) simp_all
    ultimately show ?thesis
      unfolding y_def [symmetric] m_def [symmetric] localSecs_def by simp
  qed
qed

lemma month_cases:
  fixes m :: int
  assumes "1 \<le> m" "m \<le> 12"
  shows "m = 1 \<or> m = 2 \<or> m = 3 \<or> m = 4 \<or> m = 5 \<or> m = 6 \<or> m = 7 \<or> m = 8
      \<or> m = 9 \<or> m = 10 \<or> m = 11 \<or> m = 12"
  using assms by presburger

lemma absMonthDay_first:
  assumes "1 \<le> m" "m \<le> 12"
  shows "absMonthDay y (daysBefore (m - 1) + (if isLeap y \<and> 3 \<le> m then 1 else 0)) = (m, 1)"
  using month_cases [OF assms] by (elim disjE) (simp_all add: absMonthDay_def)

lemma absMonthDay_last:
  assumes "1 \<le> m" "m \<le> 12"
  shows "absMonthDay y (daysBefore m + (if isLeap y \<and> 2 \<le> m then 1 else 0) - 1) = (m, daysIn y m)"
  using month_cases [OF assms] by (elim disjE) (simp_all add: absMonthDay_def)

lemma yday_first_bounds:
  assumes "1 \<le> m" "m \<le> 12"
  shows "0 \<le> daysBefore (m - 1) + (if isLeap y \<and> 3 \<le> m then 1 else 0)"
    and "daysBefore (m - 1) + (if isLeap y \<and> 3 \<le> m then 1 else 0) < daysInYear y"
  using month_cases [OF assms] by (elim disjE; simp add: daysInYear_def)+

lemma yday_last_bounds:
  assumes "1 \<le> m" "m \<le> 12"
  shows "0 \<le> daysBefore m + (if isLeap y \<and> 2 \<le> m then 1 else 0) - 1"
    and "daysBefore m + (if isLeap y \<and> 2 \<le> m then 1 else 0) - 1 < daysInYear y"
  using month_cases [OF assms] by (elim disjE; simp add: daysInYear_def)+

lemma absDate_midnight:
  assumes "0 \<le> k" "k < daysInYear y"
  shows "absDate ((daysSinceEpoch y + k) * 86400) = (y, absMonthDay y k)"
  unfolding absDate_def Let_def using absYear_complete [OF assms] by (simp add: split_beta)

lemma absSec_Date:
  assumes "readsBack loc (dateLocal y m d h mi s)"
  shows "absSec loc (Date loc y m d h mi s) = dateLocal y m d h mi s + 62135596800"
  using assms unfolding absSec_def Unix_Date readsBack_def by simp

lemma lastDay_of_month:
  assumes "1 \<le> m" "m \<le> 12"
    and "readsBack loc (dateLocal y m 1 0 0 0)" "readsBack loc (dateLocal y (m + 1) 0 0 0 0)"
  shows "Day loc (AddDate loc (Date loc y m 1 0 0 0) 0 1 (- 1)) = daysIn y m"
proof -
  define k1 where "k1 = daysBefore (m - 1) + (if isLeap y \<and> 3 \<le> m then 1 else 0)"
  define k2 where "k2 = daysBefore m + (if isLeap y \<and> 2 \<le> m then 1 else 0) - 1"
  have a1: "absSec loc (Date loc y m 1 0 0 0) = (daysSinceEpoch y + k1) * 86400"
    unfolding absSec_Date [OF assms(3)] dateLocal_formula [OF assms(1,2)] dayNumber_def k1_def
    by simp
  have d1: "absDate ((daysSinceEpoch y + k1) * 86400) = (y, m, 1)"
    using absDate_midnight [of k1 y] yday_first_bounds [OF assms(1,2), of y]
      absMonthDay_first [OF assms(1,2), of y] unfolding k1_def by simp
  have step: "AddDate loc (Date loc y m 1 0 0 0) 0 1 (- 1) = Date loc y (m + 1) 0 0 0 0"
    unfolding AddDate_def Let_def a1 d1 prod.case by simp
  have a2: "absSec loc (Date loc y (m + 1) 0 0 0 0) = (daysSinceEpoch y + k2) * 86400"
  proof (cases "m = 12")
    case True
    then show ?thesis
      unfolding absSec_Date [OF assms(4)] k2_def using dateLocal_13 [of y 0 0 0 0]
      by (simp add: daysInYear_def)
  next
    case False
    then have "1 \<le> m + 1" "m + 1 \<le> 12" using assms by simp_all
    from dateLocal_formula [OF this, of y 0 0 0 0] show ?thesis
      unfolding absSec_Date [OF assms(4)] k2_def dayNumber_def by (simp split: if_splits)
  qed
  have "absDate (absSec loc (Date loc y (m + 1) 0 0 0 0)) = (y, m, daysIn y m)"
    unfolding a2 using absDate_midnight [of k2 y] yday_last_bounds [OF assms(1,2), of y]
      absMonthDay_last [OF assms(1,2), of y] unfolding k2_def by simp
  then show ?thesis unfolding step Day_def by simp
qed

lemma readsBack_fixedZone [simp]: "readsBack (fixedZone off) a"
  by (simp add: readsBack_def fixedZone_def)

lemma weekStart_in_week:
  "weekStart loc t \<le> localDay loc t" "localDay loc t \<le> weekStart loc t + 6"
  "(weekStart loc t + 4) mod 7 = 0"
proof -
  define d where "d = localDay loc t + 4"
  have w: "Weekday loc t = d mod 7" unfolding d_def by (rule Weekday_localDay)
  have r: "0 \<le> d mod 7" "d mod 7 < 7" by simp_all
  show "weekStart loc t \<le> localDay loc t" "localDay loc t \<le> weekStart loc t + 6"
    unfolding weekStart_def w using r by linarith+
  have "weekStart loc t + 4 = d - d mod 7" unfolding weekStart_def w d_def by simp
  also have "\<dots> = 7 * (d div 7)" by (simp add: minus_mod_eq_mult_div)
  finally show "(weekStart loc t + 4) mod 7 = 0" by simp
qed

lemma wall_future_off:
  assumes "(localDay loc t + 1) * 86400 \<le> a" "off \<le> zoneOffset loc (Unix t)"
  shows "Unix t < a - off"
proof -
  have "(localDay loc t + 1) * 86400 = localDay loc t * 86400 + 86400"
    by (simp add: algebra_simps)
  then show ?thesis using localDay_bounds(2) [of t loc] assms by linarith
qed

lemma wall_future:
  assumes "(localDay loc t + 1) * 86400 \<le> a" "dateOffset loc a \<le> zoneOffset loc (Unix t)"
  shows "Unix t < a - dateOffset loc a"
  using assms by (rule wall_future_off)

lemma localSecs_later:
  assumes "1 \<le> j" "0 \<le> h" "0 \<le> mi"
  shows "(d + 1) * 86400 \<le> localSecs (d + j) h mi"
proof -
  have "(d + 1) * 86400 \<le> (d + j) * 86400" using assms(1) by (simp add: algebra_simps)
  then show ?thesis using assms(2,3) unfolding localSecs_def by linarith
qed

lemma Unix_Add: "Unix (Add t (k * 1000000000)) = Unix t + k"
  by (simp add: Unix_def Add_def)

lemma Unix_Add_week: "Unix (Add (Date loc y m d h mi s) (7 * 24 * Hour)) = Unix (Date loc y m d h mi s) + 604800"
  using Unix_Add [of "Date loc y m d h mi s" 604800] by (simp add: Hour_def Minute_def Second_def)

subsection \<open>What the operations leave unchanged\<close>

lemma Now_fst [simp]: "fst (Now w) = clock w (reads w)"
  by (simp add: Now_def)

lemma Now_snd [simp]: "snd (Now w) = w\<lparr>reads := Suc (reads w)\<rparr>"
  by (simp add: Now_def)

lemma notify_fields [simp]:
  "TaskList (notify l m w) = TaskList w" "clock (notify l m w) = clock w"
  "zone (notify l m w) = zone w" "spawned (notify l m w) = spawned w"
  "reads (notify l m w) = Suc (reads w)"
  "emitted (notify l m w) = emitted w @ [\<lparr>lvl = l, msg = m, logTime = clock w (reads w)\<rparr>]"
  by (simp_all add: notify_def Now_def)

lemma everyInterval_frame [simp]:
  "TaskList (snd (everyInterval u d s nw)) = TaskList (snd nw)"
  "clock (snd (everyInterval u d s nw)) = clock (snd nw)"
  "zone (snd (everyInterval u d s nw)) = zone (snd nw)"
  "spawned (snd (everyInterval u d s nw)) = spawned (snd nw)"
  "emitted (snd (everyInterval u d s nw)) = emitted (snd nw)"
  by (simp_all add: everyInterval_def split_beta)

lemma nextFrequently_frame [simp]:
  "TaskList (snd (nextFrequently s w)) = TaskList w"
  "clock (snd (nextFrequently s w)) = clock w"
  "zone (snd (nextFrequently s w)) = zone w"
  "spawned (snd (nextFrequently s w)) = spawned w"
  "emitted (snd (nextFrequently s w)) = emitted w"
  by (simp_all add: nextFrequently_def)

lemma nextDaily_frame [simp]:
  "TaskList (snd (nextDaily s w)) = TaskList w"
  "clock (snd (nextDaily s w)) = clock w"
  "zone (snd (nextDaily s w)) = zone w"
  "spawned (snd (nextDaily s w)) = spawned w"
  "emitted (snd (nextDaily s w)) = emitted w"
  by (simp_all add: nextDaily_def split_beta Let_def)

lemma nextWeekly_frame [simp]:
  "TaskList (snd (nextWeekly s w)) = TaskList w"
  "clock (snd (nextWeekly s w)) = clock w"
  "zone (snd (nextWeekly s w)) = zone w"
  "spawned (snd (nextWeekly s w)) = spawned w"
  "emitted (snd (nextWeekly s w)) = emitted w"
  by (simp_all add: nextWeekly_def split_beta Let_def)

lemma nextMonthly_frame [simp]:
  "TaskList (snd (nextMonthly s w)) = TaskList w"
  "clock (snd (nextMonthly s w)) = clock w"
  "zone (snd (nextMonthly s w)) = zone w"
  "spawned (snd (nextMonthly s w)) = spawned w"
  "emitted (snd (nextMonthly s w)) = emitted w"
  by (simp_all add: nextMonthly_def split_beta Let_def)

lemma notRunning_frame [simp]:
  "TaskList (snd (notRunning s w)) = TaskList w"
  "clock (snd (notRunning s w)) = clock w"
  "zone (snd (notRunning s w)) = zone w"
  "spawned (snd (notRunning s w)) = spawned w"
  by (simp_all add: notRunning_def)

lemma switchUpdate_frame [simp]:
  "TaskList (snd (switchUpdate s w)) = TaskList w"
  "clock (snd (switchUpdate s w)) = clock w"
  "zone (snd (switchUpdate s w)) = zone w"
  "spawned (snd (switchUpdate s w)) = spawned w"
  by (simp_all add: switchUpdate_def)

lemma switchAddTask_frame [simp]:
  "TaskList (snd (switchAddTask s w)) = TaskList w"
  "clock (snd (switchAddTask s w)) = clock w"
  "zone (snd (switchAddTask s w)) = zone w"
  "spawned (snd (switchAddTask s w)) = spawned w"
  by (simp_all add: switchAddTask_def)

lemma runType_distinct [simp]:
  "onetime' \<noteq> frequently'" "onetime' \<noteq> daily'" "onetime' \<noteq> weekly'" "onetime' \<noteq> monthly'"
  "frequently' \<noteq> onetime'" "frequently' \<noteq> daily'" "frequently' \<noteq> weekly'" "frequently' \<noteq> monthly'"
  "daily' \<noteq> onetime'" "daily' \<noteq> frequently'" "daily' \<noteq> weekly'" "daily' \<noteq> monthly'"
  "weekly' \<noteq> onetime'" "weekly' \<noteq> frequently'" "weekly' \<noteq> daily'" "weekly' \<noteq> monthly'"
  "monthly' \<noteq> onetime'" "monthly' \<noteq> frequently'" "monthly' \<noteq> daily'" "monthly' \<noteq> weekly'"
  by (simp_all add: onetime'_def frequently'_def daily'_def weekly'_def monthly'_def)

lemma unit_distinct [simp]:
  "seconds' \<noteq> minutes'" "seconds' \<noteq> hours'" "minutes' \<noteq> seconds'" "minutes' \<noteq> hours'"
  "hours' \<noteq> seconds'" "hours' \<noteq> minutes'"
  by (simp_all add: seconds'_def minutes'_def hours'_def)

text \<open>
  Both \<open>AddTask\<close> and \<open>UpdateNextRunTime\<close> write one entry under the task's name, with
  the weekday field 0, and leave every other key alone; so a registry keyed by name stays
  keyed by name.
\<close>

lemma AddTask_entry:
  "\<exists>e. TaskList (AddTask s w) (Name s) = Some [e] \<and> Name e = Name s \<and> dayName e = 0 \<and>
     nextRunTime e = fst (switchAddTask s w)"
  unfolding AddTask_def Let_def by (simp add: split_beta)

lemma UpdateNextRunTime_entry:
  "\<exists>e. TaskList (UpdateNextRunTime s w) (Name s) = Some [e] \<and> Name e = Name s \<and> dayName e = 0 \<and>
     nextRunTime e = fst (switchUpdate s w)"
  unfolding UpdateNextRunTime_def Let_def by (simp add: split_beta)

lemma AddTask_other:
  "k \<noteq> Name s \<Longrightarrow> TaskList (AddTask s w) k = TaskList w k"
  unfolding AddTask_def Let_def by (simp add: split_beta)

lemma UpdateNextRunTime_other:
  "k \<noteq> Name s \<Longrightarrow> TaskList (UpdateNextRunTime s w) k = TaskList w k"
  unfolding UpdateNextRunTime_def Let_def by (simp add: split_beta)

lemma UpdateNextRunTime_fields [simp]:
  "clock (UpdateNextRunTime s w) = clock w" "zone (UpdateNextRunTime s w) = zone w"
  "spawned (UpdateNextRunTime s w) = spawned w"
  unfolding UpdateNextRunTime_def Let_def by (simp_all add: split_beta)

lemma keyedD:
  assumes "keyed ks w" "k \<in> set ks" "TaskList w k = Some es"
  shows "\<exists>e. es = [e] \<and> Name e = k"
proof -
  from assms(1,2) have "case TaskList w k of None \<Rightarrow> True
      | Some es \<Rightarrow> (case es of [e] \<Rightarrow> Name e = k | _ \<Rightarrow> False)"
    unfolding keyed_def list_all_iff by blast
  then show ?thesis using assms(3) by (auto split: list.splits)
qed

lemma keyed_cong:
  assumes "keyed ks w" "\<And>k. k \<in> set ks \<Longrightarrow> TaskList w' k = TaskList w k"
  shows "keyed ks w'"
  using assms unfolding keyed_def list_all_iff by simp

lemma keyed_Cons: "keyed (k # ks) w \<Longrightarrow> keyed ks w"
  by (simp add: keyed_def)

lemma keyed_append: "keyed (xs @ ys) w \<Longrightarrow> keyed xs w \<and> keyed ys w"
  by (simp add: keyed_def)

lemma keyed_AddTask: "keyed ks w \<Longrightarrow> keyed ks (AddTask s w)"
  unfolding keyed_def list_all_iff
proof
  fix k assume a: "\<forall>k\<in>set ks. case TaskList w k of None \<Rightarrow> True
      | Some es \<Rightarrow> (case es of [e] \<Rightarrow> Name e = k | _ \<Rightarrow> False)" and k: "k \<in> set ks"
  show "case TaskList (AddTask s w) k of None \<Rightarrow> True
      | Some es \<Rightarrow> (case es of [e] \<Rightarrow> Name e = k | _ \<Rightarrow> False)"
  proof (cases "k = Name s")
    case True
    then show ?thesis using AddTask_entry [of s w] by auto
  next
    case False
    then show ?thesis using a k by (simp add: AddTask_other)
  qed
qed

lemma keyed_UpdateNextRunTime: "keyed ks w \<Longrightarrow> keyed ks (UpdateNextRunTime s w)"
  unfolding keyed_def list_all_iff
proof
  fix k assume a: "\<forall>k\<in>set ks. case TaskList w k of None \<Rightarrow> True
      | Some es \<Rightarrow> (case es of [e] \<Rightarrow> Name e = k | _ \<Rightarrow> False)" and k: "k \<in> set ks"
  show "case TaskList (UpdateNextRunTime s w) k of None \<Rightarrow> True
      | Some es \<Rightarrow> (case es of [e] \<Rightarrow> Name e = k | _ \<Rightarrow> False)"
  proof (cases "k = Name s")
    case True
    then show ?thesis using UpdateNextRunTime_entry [of s w] by auto
  next
    case False
    then show ?thesis using a k by (simp add: UpdateNextRunTime_other)
  qed
qed

lemma keyed_Reset: "keyed ks (Reset w)"
  by (simp add: keyed_def list_all_iff Reset_def)

subsection \<open>The poll sweep\<close>

lemma visit_Inr:
  assumes "visit s w = Inr w'"
  shows "clock w' = clock w"
    and "spawned w' = spawned w @
          (if nextRunTime s = Unix (clock w (reads w)) then [(Name s, the (ExecuteFunc s))] else [])"
    and "nextRunTime s = Unix (clock w (reads w)) \<Longrightarrow> ExecuteFunc s \<noteq> None"
    and "k \<noteq> Name s \<Longrightarrow> TaskList w' k = TaskList w k"
  using assms unfolding visit_def Let_def
  by (auto simp: split_beta UpdateNextRunTime_other split: if_splits option.splits)

lemma sweep_frame:
  assumes "sweep ks w = Inr w'" "keyed ks w" "distinct ks"
  shows "clock w' = clock w \<and> (\<forall>k. k \<notin> set ks \<longrightarrow> TaskList w' k = TaskList w k) \<and>
         (\<exists>xs. spawned w' = spawned w @ xs \<and> fst ` set xs \<subseteq> set ks)"
  using assms
proof (induction ks arbitrary: w)
  case Nil
  then show ?case by simp
next
  case (Cons k ks)
  show ?case
  proof (cases "TaskList w k")
    case None
    then have "sweep ks w = Inr w'" using Cons.prems(1) by simp
    from Cons.IH [OF this keyed_Cons [OF Cons.prems(2)]] Cons.prems(3)
    show ?thesis by auto
  next
    case (Some es)
    obtain e where es: "es = [e]" and n: "Name e = k"
      using keyedD [OF Cons.prems(2) _ Some] by auto
    obtain w1 where v: "visit e w = Inr w1" and r: "sweep ks w1 = Inr w'"
      using Cons.prems(1) Some es by (auto split: sum.splits)
    have other: "\<And>j. j \<noteq> k \<Longrightarrow> TaskList w1 j = TaskList w j"
      using visit_Inr(4) [OF v] n by simp
    have "keyed ks w1"
      using Cons.prems(3) by (intro keyed_cong [OF keyed_Cons [OF Cons.prems(2)]] other) auto
    from Cons.IH [OF r this] Cons.prems(3)
    have ih: "clock w' = clock w1" "\<forall>j. j \<notin> set ks \<longrightarrow> TaskList w' j = TaskList w1 j"
      and "\<exists>xs. spawned w' = spawned w1 @ xs \<and> fst ` set xs \<subseteq> set ks"
      by auto
    then obtain xs where xs: "spawned w' = spawned w1 @ xs" "fst ` set xs \<subseteq> set ks" by blast
    have "spawned w' = spawned w @
        ((if nextRunTime e = Unix (clock w (reads w)) then [(Name e, the (ExecuteFunc e))] else []) @ xs)"
      using xs(1) visit_Inr(2) [OF v] by simp
    moreover have "fst ` set ((if nextRunTime e = Unix (clock w (reads w))
        then [(Name e, the (ExecuteFunc e))] else []) @ xs) \<subseteq> set (k # ks)"
      using xs(2) n by auto
    ultimately have "\<exists>ys. spawned w' = spawned w @ ys \<and> fst ` set ys \<subseteq> set (k # ks)" by blast
    then show ?thesis using ih visit_Inr(1) [OF v] other by auto
  qed
qed

lemma sweep_append:
  "sweep (xs @ ys) w = (case sweep xs w of Inl x \<Rightarrow> Inl x | Inr w1 \<Rightarrow> sweep ys w1)"
  by (induction xs arbitrary: w) (auto split: option.splits sum.splits)

text \<open>
  A sweep ends the process only at a due task without a callback; when every registered
  task has one, the sweep returns.
\<close>

lemma visit_callback:
  assumes "ExecuteFunc s \<noteq> None"
  shows "\<exists>w'. visit s w = Inr w'"
  using assms unfolding visit_def Let_def by (auto simp: split_beta)

lemma callbacksD:
  assumes "callbacks ks w" "k \<in> set ks" "TaskList w k = Some es" "e \<in> set es"
  shows "ExecuteFunc e \<noteq> None"
proof -
  from assms(1,2) have "case TaskList w k of None \<Rightarrow> True
      | Some es \<Rightarrow> list_all (\<lambda>e. ExecuteFunc e \<noteq> None) es"
    unfolding callbacks_def list_all_iff by blast
  then show ?thesis using assms(3,4) by (simp add: list_all_iff)
qed

lemma callbacks_cong:
  assumes "callbacks ks w" "\<And>k. k \<in> set ks \<Longrightarrow> TaskList w' k = TaskList w k"
  shows "callbacks ks w'"
  using assms unfolding callbacks_def list_all_iff by simp

lemma callbacks_Cons: "callbacks (k # ks) w \<Longrightarrow> callbacks ks w"
  by (simp add: callbacks_def)

lemma sweep_returns:
  assumes "keyed ks w" "distinct ks" "callbacks ks w"
  shows "\<exists>w'. sweep ks w = Inr w'"
  using assms
proof (induction ks arbitrary: w)
  case Nil
  show ?case by simp
next
  case (Cons k ks)
  have d: "distinct ks" and nk: "k \<notin> set ks" using Cons.prems(2) by simp_all
  have kin: "k \<in> set (k # ks)" by simp
  show ?case
  proof (cases "TaskList w k")
    case None
    from Cons.IH [OF keyed_Cons [OF Cons.prems(1)] d callbacks_Cons [OF Cons.prems(3)]]
    obtain w' where "sweep ks w = Inr w'" by blast
    then show ?thesis using None by simp
  next
    case (Some es)
    from keyedD [OF Cons.prems(1) kin Some]
    obtain e where es: "es = [e]" and n: "Name e = k" by blast
    have ein: "e \<in> set es" unfolding es by simp
    have "ExecuteFunc e \<noteq> None" by (rule callbacksD [OF Cons.prems(3) kin Some ein])
    from visit_callback [OF this, of w]
    obtain w1 where v: "visit e w = Inr w1" by blast
    have other: "TaskList w1 j = TaskList w j" if "j \<in> set ks" for j
    proof -
      from that nk have "j \<noteq> Name e" unfolding n by blast
      then show ?thesis by (rule visit_Inr(4) [OF v])
    qed
    have k1: "keyed ks w1" by (rule keyed_cong [OF keyed_Cons [OF Cons.prems(1)] other])
    have c1: "callbacks ks w1"
      by (rule callbacks_cong [OF callbacks_Cons [OF Cons.prems(3)] other])
    from Cons.IH [OF k1 d c1] obtain w' where r: "sweep ks w1 = Inr w'" by blast
    have "sweep (k # ks) w = Inr w'" unfolding sweep.simps Some es by (simp add: v r)
    then show ?thesis by blast
  qed
qed


lemma sweep_dispatch_run:
  assumes "distinct (ks1 @ k # ks2)" "keyed (ks1 @ k # ks2) w" "TaskList w k = Some [e]"
    and "sweep (ks1 @ k # ks2) w = Inr w'"
  shows "\<exists>w1. sweep ks1 w = Inr w1 \<and>
           (k \<in> fst ` set (startedSince w w') \<longleftrightarrow> nextRunTime e = Unix (clock w (reads w1))) \<and>
           (nextRunTime e = Unix (clock w (reads w1)) \<longrightarrow>
              (\<exists>f. ExecuteFunc e = Some f \<and> (k, f) \<in> set (startedSince w w'))) \<and>
           (nextRunTime e = 0 \<and> (\<forall>n. 0 < Unix (clock w n)) \<longrightarrow>
              k \<notin> fst ` set (startedSince w w'))"
proof -
  obtain w1 where s1: "sweep ks1 w = Inr w1" and s2: "sweep (k # ks2) w1 = Inr w'"
    using assms(4) unfolding sweep_append by (auto split: sum.splits)
  have d: "distinct ks1" "distinct ks2" "k \<notin> set ks1" "k \<notin> set ks2" using assms(1) by auto
  have k1: "keyed ks1 w" and k2: "keyed ks2 w"
    using keyed_append [OF assms(2)] keyed_Cons by blast+
  from sweep_frame [OF s1 k1 d(1)]
  obtain xs where f1: "clock w1 = clock w" "\<forall>j. j \<notin> set ks1 \<longrightarrow> TaskList w1 j = TaskList w j"
    "spawned w1 = spawned w @ xs" "fst ` set xs \<subseteq> set ks1" by blast
  have ke: "keyed [k] w" using keyed_append [OF assms(2)] by (simp add: keyed_def)
  have n: "Name e = k" using keyedD [OF ke _ assms(3)] by simp
  have "TaskList w1 k = Some [e]" using f1(2) d(3) assms(3) by simp
  then obtain w2 where v: "visit e w1 = Inr w2" and s3: "sweep ks2 w2 = Inr w'"
    using s2 by (auto split: sum.splits)
  have "keyed ks2 w2"
  proof (rule keyed_cong [OF k2])
    fix j assume j: "j \<in> set ks2"
    then have "j \<noteq> k" "j \<notin> set ks1" using assms(1) by auto
    then show "TaskList w2 j = TaskList w j"
      using visit_Inr(4) [OF v, of j] n f1(2) by simp
  qed
  from sweep_frame [OF s3 this d(2)]
  obtain ys where f3: "spawned w' = spawned w2 @ ys" "fst ` set ys \<subseteq> set ks2" by blast
  define due where "due \<longleftrightarrow> nextRunTime e = Unix (clock w (reads w1))"
  define mid where "mid = (if due then [(k, the (ExecuteFunc e))] else [])"
  have f2: "spawned w2 = spawned w1 @ mid"
    using visit_Inr(2) [OF v] unfolding mid_def due_def f1(1) n by simp
  have st: "startedSince w w' = xs @ mid @ ys"
    unfolding startedSince_def f3(1) f2 f1(3) by simp
  have nx: "k \<notin> fst ` set xs" "k \<notin> fst ` set ys" using f1(4) f3(2) d(3,4) by auto
  have iff: "k \<in> fst ` set (startedSince w w') \<longleftrightarrow> due"
    unfolding st using nx by (auto simp: mid_def)
  have ex: "due \<Longrightarrow> \<exists>f. ExecuteFunc e = Some f \<and> (k, f) \<in> set (startedSince w w')"
  proof -
    assume due
    then have "ExecuteFunc e \<noteq> None" using visit_Inr(3) [OF v] unfolding due_def f1(1) by simp
    then obtain f where "ExecuteFunc e = Some f" by auto
    then show ?thesis unfolding st mid_def using \<open>due\<close> by simp
  qed
  have zero: "nextRunTime e = 0 \<and> (\<forall>n. 0 < Unix (clock w n)) \<Longrightarrow> \<not> due"
    unfolding due_def by (metis less_irrefl)
  show ?thesis
    using s1 iff ex zero unfolding due_def by blast
qed



lemma sweepWorld_backup:
  "TaskList sweepWorld ''backup'' = Some [hd (fst (Get sweepWorld ''backup''))]"
  "nextRunTime (hd (fst (Get sweepWorld ''backup''))) = 1704110407"
  by code_simp+

lemma sweepWorld_keyed: "keyed [''cleanup'', ''backup''] sweepWorld"
  by code_simp

lemma sweepWorld_sweep:
  "map_sum id (startedSince sweepWorld) (sweep [''cleanup'', ''backup''] sweepWorld)
     = Inr [(''backup'', 1)]"
  by code_simp

lemma sweepWorld_callbacks: "callbacks [''cleanup'', ''backup''] sweepWorld"
  by code_simp



subsection \<open>Interval tasks\<close>

lemma wrap64_id:
  assumes "0 \<le> x" "x < 9223372036854775808"
  shows "wrap64 x = x"
proof -
  have "(x + 9223372036854775808) mod 18446744073709551616 = x + 9223372036854775808"
    using assms by (intro mod_pos_pos_trivial) linarith+
  then show ?thesis by (simp add: wrap64_def)
qed

lemma everyInterval_value:
  assumes "0 < v" "0 < k" "v * k * 1000000000 < 9223372036854775808" "FrequencyValue s = v"
    "d = k * 1000000000"
  shows "everyInterval u d s nw =
     (if FrequencyInterval s = u
      then (Unix (clock (snd nw) (reads (snd nw))) + v * k, snd nw\<lparr>reads := Suc (reads (snd nw))\<rparr>)
      else nw)"
proof -
  have "0 \<le> v * k" using assms(1,2) by simp
  then have nn: "0 \<le> v * k * 1000000000" by simp
  have dv: "d * v = v * k * 1000000000" unfolding assms(5) by simp
  have "mulDuration d v = (v * k) * 1000000000"
    unfolding mulDuration_def dv by (rule wrap64_id [OF nn assms(3)])
  then show ?thesis
    unfolding everyInterval_def Let_def using assms(4) Unix_Add [of _ "v * k"]
    by (simp add: split_beta)
qed

lemma everyInterval_skip: "FrequencyInterval s \<noteq> u \<Longrightarrow> everyInterval u d s nw = nw"
  by (simp add: everyInterval_def)

lemma nextFrequently_value:
  assumes "0 < v" "FrequencyValue s = v"
    and "(FrequencyInterval s = seconds' \<and> k = 1) \<or> (FrequencyInterval s = minutes' \<and> k = 60)
       \<or> (FrequencyInterval s = hours' \<and> k = 3600)"
    and "v * k * 1000000000 < 2 ^ 63"
  shows "fst (nextFrequently s w) = Unix (clock w (reads w)) + v * k"
proof -
  have b: "v * k * 1000000000 < 9223372036854775808" using assms(4) by simp
  from assms(3) show ?thesis
  proof (elim disjE conjE)
    assume u: "FrequencyInterval s = seconds'" and k: "k = 1"
    have "everyInterval seconds' Second s (0, w) =
        (Unix (clock w (reads w)) + v * k, w\<lparr>reads := Suc (reads w)\<rparr>)"
      using everyInterval_value [OF assms(1) _ b assms(2), of Second seconds' "(0, w)"] u k
      by (simp add: Second_def)
    then show ?thesis unfolding nextFrequently_def using u by (simp add: everyInterval_skip)
  next
    assume u: "FrequencyInterval s = minutes'" and k: "k = 60"
    have "everyInterval minutes' Minute s (0, w) =
        (Unix (clock w (reads w)) + v * k, w\<lparr>reads := Suc (reads w)\<rparr>)"
      using everyInterval_value [OF assms(1) _ b assms(2), of Minute minutes' "(0, w)"] u k
      by (simp add: Minute_def Second_def)
    then show ?thesis unfolding nextFrequently_def using u by (simp add: everyInterval_skip)
  next
    assume u: "FrequencyInterval s = hours'" and k: "k = 3600"
    have "everyInterval hours' Hour s (0, w) =
        (Unix (clock w (reads w)) + v * k, w\<lparr>reads := Suc (reads w)\<rparr>)"
      using everyInterval_value [OF assms(1) _ b assms(2), of Hour hours' "(0, w)"] u k
      by (simp add: Hour_def Minute_def Second_def)
    then show ?thesis unfolding nextFrequently_def using u by (simp add: everyInterval_skip)
  qed
qed

text \<open>
  C2, amended. For a \<open>frequently\<close> task with unit seconds, minutes or hours (\<open>k\<close>
  seconds each) and a positive interval \<open>v\<close> whose duration \<open>v * k\<close> seconds fits the
  64-bit nanosecond count of a \<open>time.Duration\<close>, the next run stored by \<open>AddTask\<close>
  and by \<open>UpdateNextRunTime\<close> is the Unix time of the clock reading plus \<open>v * k\<close>. The
  setters \<open>Seconds\<close>, \<open>Minutes\<close> and \<open>Hours\<close> store 1 for a non-positive interval
  and the interval itself otherwise.
\<close>

theorem frequently_next_run:
  assumes "RunType s = frequently'" "FrequencyValue s = v" "0 < v"
    and "(FrequencyInterval s = seconds' \<and> k = 1) \<or> (FrequencyInterval s = minutes' \<and> k = 60)
       \<or> (FrequencyInterval s = hours' \<and> k = 3600)"
    and "v * k * 1000000000 < 2 ^ 63"
  shows "(\<exists>e. TaskList (AddTask s w) (Name s) = Some [e] \<and>
            nextRunTime e = Unix (clock w (reads w)) + v * k) \<and>
         (\<exists>e. TaskList (UpdateNextRunTime s w) (Name s) = Some [e] \<and>
            nextRunTime e = Unix (clock w (reads w)) + v * k) \<and>
         (i \<le> 0 \<longrightarrow> FrequencyValue (Seconds i t) = 1 \<and> FrequencyValue (Minutes i t) = 1 \<and>
            FrequencyValue (Hours i t) = 1) \<and>
         (0 < i \<longrightarrow> FrequencyValue (Seconds i t) = i \<and> FrequencyValue (Minutes i t) = i \<and>
            FrequencyValue (Hours i t) = i)"
proof -
  have a: "fst (switchAddTask s w) = fst (nextFrequently s w)"
    and u: "fst (switchUpdate s w) = fst (nextFrequently s w)"
    using assms(1) by (simp_all add: switchAddTask_def switchUpdate_def)
  have n: "fst (nextFrequently s w) = Unix (clock w (reads w)) + v * k"
    by (rule nextFrequently_value [OF assms(3) assms(2) assms(4) assms(5)])
  show ?thesis
    using AddTask_entry [of s w] UpdateNextRunTime_entry [of s w]
    unfolding a u n by (auto simp: Seconds_def Minutes_def Hours_def)
qed

theorem frequently_next_run_witness:
  "RunType backupTask = frequently' \<and> FrequencyValue backupTask = 7 \<and> (0::int) < 7 \<and>
   ((FrequencyInterval backupTask = seconds' \<and> (1::int) = 1) \<or>
    (FrequencyInterval backupTask = minutes' \<and> (1::int) = 60) \<or>
    (FrequencyInterval backupTask = hours' \<and> (1::int) = 3600)) \<and>
   (7::int) * 1 * 1000000000 < 2 ^ 63 \<and>
   (\<exists>e. TaskList (AddTask backupTask world0) (Name backupTask) = Some [e] \<and>
      nextRunTime e = Unix (clock world0 (reads world0)) + 7 * 1) \<and>
   (\<exists>e. TaskList (UpdateNextRunTime backupTask world0) (Name backupTask) = Some [e] \<and>
      nextRunTime e = Unix (clock world0 (reads world0)) + 7 * 1) \<and>
   FrequencyValue (Seconds (- 3) zeroTask) = 1 \<and> FrequencyValue (Minutes 0 zeroTask) = 1 \<and>
   FrequencyValue (Hours (- 3) zeroTask) = 1 \<and> FrequencyValue (Seconds 5 zeroTask) = 5"
proof -
  have h: "RunType backupTask = frequently'" "FrequencyValue backupTask = 7" "(0::int) < 7"
    "(FrequencyInterval backupTask = seconds' \<and> (1::int) = 1) \<or>
     (FrequencyInterval backupTask = minutes' \<and> (1::int) = 60) \<or>
     (FrequencyInterval backupTask = hours' \<and> (1::int) = 3600)"
    "(7::int) * 1 * 1000000000 < 2 ^ 63"
    by (simp_all add: backupTask_def zeroTask_def)
  show ?thesis
    using h frequently_next_run [OF h, of world0 "- 3" zeroTask]
      frequently_next_run [OF h, of world0 0 zeroTask]
      frequently_next_run [OF h, of world0 5 zeroTask]
    by simp
qed

text \<open>
  C2 as stated fails for a long interval: \<open>Hours(2562048)\<close> gives a duration of
  9223372800000000000 ns, beyond \<open>2 ^ 63 - 1\<close>; the product wraps to a negative
  duration, and the next run lies in the past instead of 2562048 hours ahead.
\<close>

theorem frequently_overflow:
  "FrequencyValue hugeTask = 2562048 \<and> FrequencyInterval hugeTask = hours' \<and>
   Unix (clock world0 (reads world0)) + 2562048 * 3600 = 10927483200 \<and>
   map nextRunTime (fst (Get (AddTask hugeTask world0) (Name hugeTask))) = [- 7519260874] \<and>
   map nextRunTime (fst (Get (UpdateNextRunTime hugeTask world0) (Name hugeTask))) = [- 7519260874] \<and>
   map nextRunTime (fst (Get (AddTask hugeTask world0) (Name hugeTask)))
     \<noteq> [Unix (clock world0 (reads world0)) + 2562048 * 3600]"
  by code_simp

subsection \<open>Weekly tasks\<close>

lemma nextWeekly_value:
  "fst (nextWeekly s w) =
     atDay (zone w) (weekStart (zone w) (clock w (reads w)) + dayName s)
       (Atoi (runAtHour s)) (Atoi (runAtMinute s)) + 604800"
proof -
  have "fst (nextWeekly s w) =
      Unix (Add (Date (zone w) (Year (zone w) (clock w (reads w))) (Month (zone w) (clock w (reads w)))
        (Day (zone w) (clock w (reads w)) - (Weekday (zone w) (clock w (reads w)) - dayName s))
        (Atoi (runAtHour s)) (Atoi (runAtMinute s)) 0) (7 * 24 * Hour))"
    unfolding nextWeekly_def Let_def by (simp add: split_beta)
  also have "\<dots> = atDay (zone w) (localDay (zone w) (clock w (reads w))
        + (Day (zone w) (clock w (reads w)) - (Weekday (zone w) (clock w (reads w)) - dayName s)
           - Day (zone w) (clock w (reads w))))
        (Atoi (runAtHour s)) (Atoi (runAtMinute s)) + 604800"
    unfolding Unix_Add_week today_at ..
  also have "localDay (zone w) (clock w (reads w))
        + (Day (zone w) (clock w (reads w)) - (Weekday (zone w) (clock w (reads w)) - dayName s)
           - Day (zone w) (clock w (reads w)))
      = weekStart (zone w) (clock w (reads w)) + dayName s"
    by (simp add: weekStart_def)
  finally show ?thesis .
qed

text \<open>
  C5, amended. The weekly rule yields the instant exactly 7 times 24 hours after
  \<open>hour:minute\<close> local time on the day of the current week, Sunday to Saturday, whose
  weekday is the \<open>dayName\<close> of the task given to \<open>AddTask\<close> or \<open>UpdateNextRunTime\<close>,
  whether that day is past, today or still to come. \<open>weekStart\<close> is a Sunday and lies at
  most 6 days before today.
\<close>

theorem weekly_next_run:
  assumes "RunType s = weekly'"
  shows "(\<exists>e. TaskList (AddTask s w) (Name s) = Some [e] \<and>
            nextRunTime e = atDay (zone w) (weekStart (zone w) (clock w (reads w)) + dayName s)
                              (Atoi (runAtHour s)) (Atoi (runAtMinute s)) + 604800) \<and>
         (\<exists>e. TaskList (UpdateNextRunTime s w) (Name s) = Some [e] \<and>
            nextRunTime e = atDay (zone w) (weekStart (zone w) (clock w (reads w)) + dayName s)
                              (Atoi (runAtHour s)) (Atoi (runAtMinute s)) + 604800) \<and>
         (weekStart (zone w) (clock w (reads w)) + 4) mod 7 = 0 \<and>
         weekStart (zone w) (clock w (reads w)) \<le> localDay (zone w) (clock w (reads w)) \<and>
         localDay (zone w) (clock w (reads w)) \<le> weekStart (zone w) (clock w (reads w)) + 6"
proof -
  have a: "fst (switchAddTask s w) = fst (nextWeekly s w)"
    and u: "fst (switchUpdate s w) = fst (nextWeekly s w)"
    using assms by (simp_all add: switchAddTask_def switchUpdate_def)
  show ?thesis
    using AddTask_entry [of s w] UpdateNextRunTime_entry [of s w]
      weekStart_in_week [of "zone w" "clock w (reads w)"]
    unfolding a u nextWeekly_value by auto
qed

lemma fridayTask_weekly: "RunType fridayTask = weekly'"
  by code_simp

theorem weekly_next_run_witness:
  "RunType fridayTask = weekly' \<and>
   (\<exists>e. TaskList (AddTask fridayTask world0) (Name fridayTask) = Some [e] \<and>
      nextRunTime e = atDay (zone world0) (weekStart (zone world0) (clock world0 (reads world0))
         + dayName fridayTask) (Atoi (runAtHour fridayTask)) (Atoi (runAtMinute fridayTask)) + 604800) \<and>
   (\<exists>e. TaskList (UpdateNextRunTime fridayTask world0) (Name fridayTask) = Some [e] \<and>
      nextRunTime e = atDay (zone world0) (weekStart (zone world0) (clock world0 (reads world0))
         + dayName fridayTask) (Atoi (runAtHour fridayTask)) (Atoi (runAtMinute fridayTask)) + 604800)"
  using fridayTask_weekly weekly_next_run [OF fridayTask_weekly, of world0] by simp

text \<open>
  C5 as stated fails when the configured weekday comes later in the week than today:
  on Monday 1 January 2024 a Friday 17:30 task is scheduled for Friday 12 January, while
  7 days after the most recent Friday (29 December) is Friday 5 January.
\<close>

theorem weekly_not_most_recent:
  "Weekday (zone world0) noon = 1 \<and> dayName fridayTask = 5 \<and>
   Atoi (runAtHour fridayTask) = 17 \<and> Atoi (runAtMinute fridayTask) = 30 \<and>
   map nextRunTime (fst (Get (AddTask fridayTask world0) (Name fridayTask))) = [1705080600] \<and>
   atDay (zone world0) (mostRecentOccurrence (zone world0) noon 5) 17 30 + 604800 = 1704475800 \<and>
   map nextRunTime (fst (Get (AddTask fridayTask world0) (Name fridayTask)))
     \<noteq> [atDay (zone world0) (mostRecentOccurrence (zone world0) noon 5) 17 30 + 604800]"
  by code_simp

subsection \<open>The next run lies in the future\<close>

lemma nextDaily_value:
  assumes "\<forall>n. clock w n = T"
  shows "fst (nextDaily s w) =
     atDay (zone w) (localDay (zone w) T + 1) (Atoi (runAtHour s)) (Atoi (runAtMinute s))"
proof -
  have "fst (nextDaily s w) = Unix (Date (zone w) (Year (zone w) T) (Month (zone w) T)
      (Day (zone w) T + 1) (Atoi (runAtHour s)) (Atoi (runAtMinute s)) 0)"
    unfolding nextDaily_def Let_def using assms by (simp add: split_beta)
  also have "\<dots> = atDay (zone w) (localDay (zone w) T + (Day (zone w) T + 1 - Day (zone w) T))
      (Atoi (runAtHour s)) (Atoi (runAtMinute s))"
    unfolding today_at ..
  finally show ?thesis by simp
qed

lemma nextMonthly_value:
  "fst (nextMonthly s w) =
     dateLocal (Year (zone w) (clock w (reads w))) (Month (zone w) (clock w (reads w)) + 1)
       (monthDay s) (Atoi (runAtHour s)) (Atoi (runAtMinute s)) 0
     - dateOffset (zone w) (dateLocal (Year (zone w) (clock w (reads w)))
         (Month (zone w) (clock w (reads w)) + 1) (monthDay s)
         (Atoi (runAtHour s)) (Atoi (runAtMinute s)) 0)"
  unfolding nextMonthly_def Let_def by (simp add: split_beta Unix_Date)

lemma Unix_Add_day: "Unix (Add t (24 * Hour)) = Unix t + 86400"
  using Unix_Add [of t 86400] by (simp add: Hour_def Minute_def Second_def)

lemma OneTime_frozen:
  assumes "\<forall>n. clock w n = T"
  shows "nextRunTime (fst (OneTime dt s w)) = (if dt < Unix T then Unix T + 86400 else dt)"
    and "RunType (fst (OneTime dt s w)) = onetime'"
    and "Name (fst (OneTime dt s w)) = Name s"
  unfolding OneTime_def Let_def using assms by (simp_all add: split_beta Unix_Add_day)

lemma switch_future:
  assumes "\<forall>n. clock w n = T" "wellConfigured s w"
  shows "Unix T < fst (switchAddTask s w)" and "Unix T < fst (switchUpdate s w)"
proof -
  have T: "clock w (reads w) = T" using assms(1) by simp
  from assms(2) have "Unix T < fst (switchAddTask s w) \<and> Unix T < fst (switchUpdate s w)"
    unfolding wellConfigured_def notLater_def T
  proof (elim disjE conjE)
    assume r: "RunType s = daily'" and h: "0 \<le> Atoi (runAtHour s)" "0 \<le> Atoi (runAtMinute s)"
      and z: "dateOffset (zone w) (localSecs (localDay (zone w) T + 1)
          (Atoi (runAtHour s)) (Atoi (runAtMinute s))) \<le> zoneOffset (zone w) (Unix T)"
    have "(localDay (zone w) T + 1) * 86400
        \<le> localSecs (localDay (zone w) T + 1) (Atoi (runAtHour s)) (Atoi (runAtMinute s))"
      using h by (intro localSecs_later) simp_all
    then have "Unix T < fst (nextDaily s w)"
      unfolding nextDaily_value [OF assms(1)] atDay_def using z by (rule wall_future)
    then show ?thesis using r by (simp add: switchAddTask_def switchUpdate_def)
  next
    assume r: "RunType s = weekly'" and d: "0 \<le> dayName s"
      and h: "0 \<le> Atoi (runAtHour s)" "0 \<le> Atoi (runAtMinute s)"
      and z: "dateOffset (zone w) (localSecs (weekStart (zone w) T + dayName s)
          (Atoi (runAtHour s)) (Atoi (runAtMinute s))) \<le> zoneOffset (zone w) (Unix T)"
    define j where "j = weekStart (zone w) T + dayName s + 7 - localDay (zone w) T"
    have "1 \<le> j" unfolding j_def using weekStart_in_week(2) [of "zone w" T] d by linarith
    then have "(localDay (zone w) T + 1) * 86400
        \<le> localSecs (localDay (zone w) T + j) (Atoi (runAtHour s)) (Atoi (runAtMinute s))"
      using h by (intro localSecs_later) simp_all
    moreover have "localSecs (localDay (zone w) T + j) (Atoi (runAtHour s)) (Atoi (runAtMinute s))
        = localSecs (weekStart (zone w) T + dayName s) (Atoi (runAtHour s)) (Atoi (runAtMinute s))
          + 604800"
      unfolding j_def localSecs_def by (simp add: algebra_simps)
    ultimately have "(localDay (zone w) T + 1) * 86400
        \<le> localSecs (weekStart (zone w) T + dayName s) (Atoi (runAtHour s)) (Atoi (runAtMinute s))
          + 604800" by simp
    from wall_future_off [OF this z] have "Unix T < fst (nextWeekly s w)"
      unfolding nextWeekly_value T atDay_def by simp
    then show ?thesis using r by (simp add: switchAddTask_def switchUpdate_def)
  next
    assume r: "RunType s = monthly'" and d: "1 \<le> monthDay s"
      and h: "0 \<le> Atoi (runAtHour s)" "0 \<le> Atoi (runAtMinute s)"
      and z: "dateOffset (zone w) (dateLocal (Year (zone w) T) (Month (zone w) T + 1) (monthDay s)
          (Atoi (runAtHour s)) (Atoi (runAtMinute s)) 0) \<le> zoneOffset (zone w) (Unix T)"
    have "(localDay (zone w) T + 1) * 86400
        \<le> localSecs (localDay (zone w) T + monthDay s) (Atoi (runAtHour s)) (Atoi (runAtMinute s))"
      using d h by (intro localSecs_later) simp_all
    also have "\<dots> \<le> dateLocal (Year (zone w) T) (Month (zone w) T + 1) (monthDay s)
          (Atoi (runAtHour s)) (Atoi (runAtMinute s)) 0"
      by (rule next_month)
    finally have "Unix T < fst (nextMonthly s w)"
      unfolding nextMonthly_value T using z by (rule wall_future)
    then show ?thesis using r by (simp add: switchAddTask_def switchUpdate_def)
  next
    assume r: "RunType s = frequently'" and v: "0 < FrequencyValue s"
      and u: "FrequencyInterval s = seconds'" "FrequencyValue s * 1 * 1000000000 < 2 ^ 63"
    have "fst (nextFrequently s w) = Unix (clock w (reads w)) + FrequencyValue s * 1"
      using nextFrequently_value [of "FrequencyValue s" s 1 w] v u by simp
    then show ?thesis using r v T by (simp add: switchAddTask_def switchUpdate_def)
  next
    assume r: "RunType s = frequently'" and v: "0 < FrequencyValue s"
      and u: "FrequencyInterval s = minutes'" "FrequencyValue s * 60 * 1000000000 < 2 ^ 63"
    have "fst (nextFrequently s w) = Unix (clock w (reads w)) + FrequencyValue s * 60"
      using nextFrequently_value [of "FrequencyValue s" s 60 w] v u by simp
    then show ?thesis using r v T by (simp add: switchAddTask_def switchUpdate_def)
  next
    assume r: "RunType s = frequently'" and v: "0 < FrequencyValue s"
      and u: "FrequencyInterval s = hours'" "FrequencyValue s * 3600 * 1000000000 < 2 ^ 63"
    have "fst (nextFrequently s w) = Unix (clock w (reads w)) + FrequencyValue s * 3600"
      using nextFrequently_value [of "FrequencyValue s" s 3600 w] v u by simp
    then show ?thesis using r v T by (simp add: switchAddTask_def switchUpdate_def)
  qed
  then show "Unix T < fst (switchAddTask s w)" and "Unix T < fst (switchUpdate s w)" by simp_all
qed

lemma OneTime_commit:
  assumes "\<forall>n. clock w n = T" "dt \<noteq> Unix T"
  shows "\<exists>e. TaskList (AddTask (fst (OneTime dt s w)) (snd (OneTime dt s w))) (Name s) = Some [e] \<and>
           Unix T < nextRunTime e"
proof -
  note o = OneTime_frozen [OF assms(1), of dt s]
  have "fst (switchAddTask (fst (OneTime dt s w)) (snd (OneTime dt s w)))
      = nextRunTime (fst (OneTime dt s w))"
    using o(2) by (simp add: switchAddTask_def)
  moreover have "Unix T < nextRunTime (fst (OneTime dt s w))"
    unfolding o(1) using assms(2) by simp
  ultimately show ?thesis
    using AddTask_entry [of "fst (OneTime dt s w)" "snd (OneTime dt s w)"] o(3) by auto
qed


lemma wellConfigured_examples:
  "wellConfigured backupTask world0" "wellConfigured dailyTask world0"
  "wellConfigured fridayTask world0" "wellConfigured monthlyTask world0"
  by code_simp+

lemma noon_Unix: "Unix noon = 1704110400"
  by code_simp


text \<open>
  C3 as stated fails in each of these cases. A one-time task is rescheduled to 0 by
  \<open>UpdateNextRunTime\<close>, and \<open>OneTime\<close> with the current Unix time stores that very
  time. An interval task without a unit is stored with 0, one with the interval 0 with the
  current time, and one whose duration exceeds 64 bits with a time in the past. When the
  clock passes midnight at the end of January between the readings of a daily rule, the
  month is read on 31 January and the day on 1 February, and the next run is 2 January.
  In New York on Saturday 9 November 2024, 23:30, the Sunday 00:15 rule starts from
  3 November, 00:15 daylight-saving time, and 7 times 24 hours later is 9 November, 23:15
  standard time. In Havana on 9 March 2024, 23:30, the daily 00:15 rule asks for a time
  that the start of daylight-saving time skips, and \<open>Date\<close> answers with 23:15 of
  9 March. A daily task with the hour \<open>-13\<close> is scheduled for 11:00 of the current day
  when it is noon, and a monthly task for which \<open>Every\<close> was not called has day 0 of the
  next month, which is the last day of the current one.
\<close>

lemma past_onetime:
  "RunType onceTask = onetime'" "nextRunTime onceTask = 1704114000"
  "Unix (clock world0 (reads world0)) = 1704110400"
  "map nextRunTime (fst (Get (UpdateNextRunTime onceTask world0) (Name onceTask))) = [0]"
  "nextRunTime (fst (OneTime 1704110400 zeroTask world0)) = 1704110400"
  by code_simp+

lemma past_interval:
  "RunType unitlessTask = frequently'"
  "map nextRunTime (fst (Get (AddTask unitlessTask world0) (Name unitlessTask))) = [0]"
  "map nextRunTime (fst (Get (AddTask zeroIntervalTask world0) (Name zeroIntervalTask))) = [1704110400]"
  "map nextRunTime (fst (Get (AddTask hugeTask world0) (Name hugeTask))) = [- 7519260874]"
  by code_simp+

lemma AddTask_next:
  "map nextRunTime (fst (Get (AddTask s w) (Name s))) = [fst (switchAddTask s w)]"
  using AddTask_entry [of s w] by (auto simp: Get_def)

lemma nextDaily_readings:
  "fst (nextDaily s w) =
     Unix (Date (zone w) (Year (zone w) (clock w (reads w)))
       (Month (zone w) (clock w (Suc (reads w))))
       (Day (zone w) (clock w (Suc (Suc (reads w)))) + 1)
       (Atoi (runAtHour s)) (Atoi (runAtMinute s)) 0)"
  unfolding nextDaily_def Let_def by (simp add: split_beta)

lemma nextWeekly_readings:
  "fst (nextWeekly s w) =
     Unix (Add (Date (zone w) (Year (zone w) (clock w (reads w))) (Month (zone w) (clock w (reads w)))
       (Day (zone w) (clock w (reads w)) - (Weekday (zone w) (clock w (reads w)) - dayName s))
       (Atoi (runAtHour s)) (Atoi (runAtMinute s)) 0) (7 * 24 * Hour))"
  unfolding nextWeekly_def Let_def by (simp add: split_beta)

lemma nextMonthly_readings:
  "fst (nextMonthly s w) =
     Unix (Date (zone w) (Year (zone w) (clock w (reads w))) (Month (zone w) (clock w (reads w)) + 1)
       (monthDay s) (Atoi (runAtHour s)) (Atoi (runAtMinute s)) 0)"
  unfolding nextMonthly_def Let_def by (simp add: split_beta)

lemma dailyTask_fields:
  "RunType dailyTask = daily'" "Atoi (runAtHour dailyTask) = 14" "Atoi (runAtMinute dailyTask) = 18"
  by code_simp+

lemma midnightWorld_readings:
  "Year (zone midnightWorld) (clock midnightWorld (reads midnightWorld)) = 2024"
  "Month (zone midnightWorld) (clock midnightWorld (Suc (reads midnightWorld))) = 1"
  "Day (zone midnightWorld) (clock midnightWorld (Suc (Suc (reads midnightWorld)))) = 1"
  "Unix (Date (zone midnightWorld) 2024 1 (1 + 1) 14 18 0) = 1704205080"
  by code_simp+

lemma past_midnight:
  "Unix (clock midnightWorld (reads midnightWorld)) = 1706745599"
  "map nextRunTime (fst (Get (AddTask dailyTask midnightWorld) (Name dailyTask))) = [1704205080]"
proof -
  show "Unix (clock midnightWorld (reads midnightWorld)) = 1706745599" by code_simp
  show "map nextRunTime (fst (Get (AddTask dailyTask midnightWorld) (Name dailyTask))) = [1704205080]"
    unfolding AddTask_next
    by (simp only: switchAddTask_def dailyTask_fields runType_distinct if_False if_True refl
        nextDaily_readings midnightWorld_readings)
qed

lemma sundayTask_fields:
  "RunType sundayTask = weekly'" "dayName sundayTask = 0"
  "Atoi (runAtHour sundayTask) = 0" "Atoi (runAtMinute sundayTask) = 15"
  by code_simp+

lemma newYorkWorld_readings:
  "Year (zone newYorkWorld) (clock newYorkWorld (reads newYorkWorld)) = 2024"
  "Month (zone newYorkWorld) (clock newYorkWorld (reads newYorkWorld)) = 11"
  "Day (zone newYorkWorld) (clock newYorkWorld (reads newYorkWorld)) = 9"
  "Weekday (zone newYorkWorld) (clock newYorkWorld (reads newYorkWorld)) = 6"
  "Unix (Add (Date (zone newYorkWorld) 2024 11 (9 - (6 - 0)) 0 15 0) (7 * 24 * Hour)) = 1731212100"
  by code_simp+

lemma past_newYork:
  "Unix (clock newYorkWorld (reads newYorkWorld)) = 1731213000"
  "map nextRunTime (fst (Get (AddTask sundayTask newYorkWorld) (Name sundayTask))) = [1731212100]"
proof -
  show "Unix (clock newYorkWorld (reads newYorkWorld)) = 1731213000" by code_simp
  show "map nextRunTime (fst (Get (AddTask sundayTask newYorkWorld) (Name sundayTask))) = [1731212100]"
    unfolding AddTask_next
    by (simp only: switchAddTask_def sundayTask_fields runType_distinct if_False if_True refl
        nextWeekly_readings newYorkWorld_readings)
qed

lemma midnightTask_fields:
  "RunType midnightTask = daily'" "Atoi (runAtHour midnightTask) = 0"
  "Atoi (runAtMinute midnightTask) = 15"
  by code_simp+

lemma havanaWorld_readings:
  "Year (zone havanaWorld) (clock havanaWorld (reads havanaWorld)) = 2024"
  "Month (zone havanaWorld) (clock havanaWorld (Suc (reads havanaWorld))) = 3"
  "Day (zone havanaWorld) (clock havanaWorld (Suc (Suc (reads havanaWorld)))) = 9"
  "Unix (Date (zone havanaWorld) 2024 3 (9 + 1) 0 15 0) = 1710044100"
  by code_simp+

lemma past_havana:
  "Unix (clock havanaWorld (reads havanaWorld)) = 1710045000"
  "map nextRunTime (fst (Get (AddTask midnightTask havanaWorld) (Name midnightTask))) = [1710044100]"
proof -
  show "Unix (clock havanaWorld (reads havanaWorld)) = 1710045000" by code_simp
  show "map nextRunTime (fst (Get (AddTask midnightTask havanaWorld) (Name midnightTask))) = [1710044100]"
    unfolding AddTask_next
    by (simp only: switchAddTask_def midnightTask_fields runType_distinct if_False if_True refl
        nextDaily_readings havanaWorld_readings)
qed

lemma earlyTask_fields:
  "RunType earlyTask = daily'" "Atoi (runAtHour earlyTask) = - 13" "Atoi (runAtMinute earlyTask) = 0"
  by code_simp+

lemma world0_readings:
  "Year (zone world0) (clock world0 (reads world0)) = 2024"
  "Month (zone world0) (clock world0 (Suc (reads world0))) = 1"
  "Day (zone world0) (clock world0 (Suc (Suc (reads world0)))) = 1"
  "Unix (Date (zone world0) 2024 1 (1 + 1) (- 13) 0 0) = 1704106800"
  by code_simp+

lemma dayLessTask_fields:
  "RunType dayLessTask = monthly'" "monthDay dayLessTask = 0"
  "Atoi (runAtHour dayLessTask) = 9" "Atoi (runAtMinute dayLessTask) = 30"
  by code_simp+

lemma monthEndWorld_readings:
  "Year (zone monthEndWorld) (clock monthEndWorld (reads monthEndWorld)) = 2024"
  "Month (zone monthEndWorld) (clock monthEndWorld (reads monthEndWorld)) = 1"
  "Unix (Date (zone monthEndWorld) 2024 (1 + 1) 0 9 30 0) = 1706693400"
  by code_simp+

lemma past_fields:
  "map nextRunTime (fst (Get (AddTask earlyTask world0) (Name earlyTask))) = [1704106800]"
  "Unix (clock monthEndWorld (reads monthEndWorld)) = 1706702400"
  "map nextRunTime (fst (Get (AddTask dayLessTask monthEndWorld) (Name dayLessTask))) = [1706693400]"
proof -
  show "map nextRunTime (fst (Get (AddTask earlyTask world0) (Name earlyTask))) = [1704106800]"
    unfolding AddTask_next
    by (simp only: switchAddTask_def earlyTask_fields runType_distinct if_False if_True refl
        nextDaily_readings world0_readings)
  show "Unix (clock monthEndWorld (reads monthEndWorld)) = 1706702400" by code_simp
  show "map nextRunTime (fst (Get (AddTask dayLessTask monthEndWorld) (Name dayLessTask))) = [1706693400]"
    unfolding AddTask_next
    by (simp only: switchAddTask_def dayLessTask_fields runType_distinct if_False if_True refl
        nextMonthly_readings monthEndWorld_readings)
qed


subsection \<open>The day of the month\<close>

lemma getLastDayOfMonth_eq:
  assumes "1 \<le> month" "month \<le> 12"
    and "readsBack (zone w) (dateLocal (Year (zone w) (clock w (reads w))) month 1 0 0 0)"
    and "readsBack (zone w) (dateLocal (Year (zone w) (clock w (reads w))) (month + 1) 0 0 0 0)"
  shows "fst (getLastDayOfMonth day month w) =
     (if day = 0 then daysIn (Year (zone w) (clock w (reads w))) month
      else if day > daysIn (Year (zone w) (clock w (reads w))) month
      then daysIn (Year (zone w) (clock w (reads w))) month else day)"
  unfolding getLastDayOfMonth_def Let_def
  by (simp add: split_beta lastDay_of_month [OF assms])

lemma getLastDayOfMonth_snd [simp]:
  "snd (getLastDayOfMonth day month w) = w\<lparr>reads := Suc (reads w)\<rparr>"
  unfolding getLastDayOfMonth_def Let_def by (simp add: split_beta)


lemma february_2024:
  "daysIn (Year (zone world0) (clock world0 (reads world0))) 2 = 29"
  by code_simp

lemma world0_zone: "zone world0 = fixedZone 0"
  by (simp add: world0_def)


text \<open>
  In a zone with one offset the property holds for every month from January to December
  without a further condition.
\<close>

lemma getLastDayOfMonth_fixedZone:
  assumes "1 \<le> month" "month \<le> 12" "zone w = fixedZone off"
  shows "fst (getLastDayOfMonth 0 month w) = daysIn (Year (zone w) (clock w (reads w))) month \<and>
     (daysIn (Year (zone w) (clock w (reads w))) month < day \<longrightarrow>
        fst (getLastDayOfMonth day month w) = daysIn (Year (zone w) (clock w (reads w))) month) \<and>
     (day \<noteq> 0 \<and> day \<le> daysIn (Year (zone w) (clock w (reads w))) month \<longrightarrow>
        fst (getLastDayOfMonth day month w) = day)"
proof -
  have r: "readsBack (zone w) (dateLocal (Year (zone w) (clock w (reads w))) month 1 0 0 0)"
    "readsBack (zone w) (dateLocal (Year (zone w) (clock w (reads w))) (month + 1) 0 0 0 0)"
    unfolding assms(3) by (rule readsBack_fixedZone)+
  show ?thesis unfolding getLastDayOfMonth_eq [OF assms(1,2) r] by simp
qed

text \<open>
  \<open>Every\<close> stores that value for the current month, provided the clock readings of its
  calls to \<open>getLastDayOfMonth\<close> fall in one year.
\<close>

lemma Every_monthDay:
  assumes "Year (zone w) (clock w (Suc (reads w))) = y"
    and "Year (zone w) (clock w (Suc (Suc (reads w)))) = y"
    and "readsBack (zone w) (dateLocal y (Month (zone w) (clock w (reads w))) 1 0 0 0)"
    and "readsBack (zone w) (dateLocal y (Month (zone w) (clock w (reads w)) + 1) 0 0 0 0)"
  shows "monthDay (fst (Every day s w)) =
     (if day = 0 \<or> day > daysIn y (Month (zone w) (clock w (reads w)))
      then daysIn y (Month (zone w) (clock w (reads w))) else day)"
proof -
  define m where "m = Month (zone w) (clock w (reads w))"
  define w1 where "w1 = w\<lparr>reads := Suc (reads w)\<rparr>"
  define w2 where "w2 = w1\<lparr>reads := Suc (reads w1)\<rparr>"
  have m: "1 \<le> m" "m \<le> 12"
    unfolding m_def using civil_today [of "zone w" "clock w (reads w)"] by simp_all
  have y1: "Year (zone w1) (clock w1 (reads w1)) = y" and y2: "Year (zone w2) (clock w2 (reads w2)) = y"
    unfolding w2_def w1_def using assms(1,2) by simp_all
  have r1: "readsBack (zone w1) (dateLocal (Year (zone w1) (clock w1 (reads w1))) m 1 0 0 0)"
    "readsBack (zone w1) (dateLocal (Year (zone w1) (clock w1 (reads w1))) (m + 1) 0 0 0 0)"
    unfolding y1 using assms(3,4) unfolding m_def w1_def by simp_all
  have r2: "readsBack (zone w2) (dateLocal (Year (zone w2) (clock w2 (reads w2))) m 1 0 0 0)"
    "readsBack (zone w2) (dateLocal (Year (zone w2) (clock w2 (reads w2))) (m + 1) 0 0 0 0)"
    unfolding y2 using assms(3,4) unfolding m_def w2_def w1_def by simp_all
  note e1 = getLastDayOfMonth_eq [OF m r1, unfolded y1] and e2 = getLastDayOfMonth_eq [OF m r2, unfolded y2]
  have z: "zone w1 = zone w" "zone w2 = zone w" unfolding w2_def w1_def by simp_all
  show ?thesis
    unfolding Every_def Let_def
    by (simp add: split_beta e1 e2 z w1_def [symmetric] w2_def [symmetric] m_def [symmetric])
qed

subsection \<open>One-time tasks\<close>

text \<open>
  C6. \<open>OneTime\<close> compares with \<open>dt < timeNow\<close>, so a timestamp equal to the current
  Unix time is kept as it is, and the fall-back of 24 hours later is not applied: at
  12:00:00, \<open>OneTime\<close> of 12:00:00 schedules the task for 12:00:00 and not for
  12:00:00 of the next day.
\<close>

theorem OneTime_at_now:
  "Unix (clock world0 (reads world0)) = 1704110400 \<and>
   nextRunTime (fst (OneTime 1704110400 zeroTask world0)) = 1704110400 \<and>
   nextRunTime (fst (OneTime 1704110400 zeroTask world0)) \<noteq> 1704110400 + 24 * 3600"
  by (simp add: OneTime_def Let_def split_beta world0_def noon_def Unix_def)

subsection \<open>Names\<close>

text \<open>
  C7. For an empty or blank argument \<open>TaskName\<close> assigns the generated identifier to
  \<open>taskName\<close>, which is only used for the registry lookup; the \<open>Name\<close> of the new
  task is \<open>newTaskName\<close>, the trimmed argument, which is empty.
\<close>

theorem TaskName_blank:
  "Name (fst (TaskName ''123e4567-e89b-12d3-a456-426614174000'' [] world0)) = [] \<and>
   Name (fst (TaskName ''123e4567-e89b-12d3-a456-426614174000'' ''  '' world0)) = []"
  by (simp add: TaskName_def Let_def split_beta world0_def Get_def TrimSpace_def
      leadingSpace_def spaceRunes_def)

lemma TaskName_registered:
  assumes "TaskList w name = Some [e]" "TrimSpace name \<noteq> []"
  shows "Name (fst (TaskName uuid name w)) = Name e @ ''_'' @ Sprintf_v (Unix (clock w (reads w)))"
    and "TaskList (snd (TaskName uuid name w)) = TaskList w"
  using assms unfolding TaskName_def Let_def Get_def by (simp_all add: split_beta)

text \<open>
  C8. Let \<open>name\<close>, not blank, be registered with an entry of that name. Then
  \<open>TaskName name\<close> names the new task \<open>name\<close>, an underscore and the decimal Unix
  time of the clock reading, which differs from \<open>name\<close>; and after \<open>AddTask\<close> of the
  task so named (whatever the builder calls in between set), \<open>Get name\<close> still returns
  the original entry and \<open>Get\<close> of the new name returns the new one.
\<close>

theorem duplicate_name_new_key:
  assumes "TaskList w name = Some [e]" "Name e = name" "TrimSpace name \<noteq> []"
    and "TaskName uuid name w = (s, w1)" and "Name s' = Name s"
  shows "Name s = name @ ''_'' @ Sprintf_v (Unix (clock w (reads w))) \<and> Name s \<noteq> name \<and>
         Get (AddTask s' w1) name = ([e], True) \<and>
         (\<exists>e'. Get (AddTask s' w1) (Name s) = ([e'], True) \<and> Name e' = Name s)"
proof -
  have n: "Name s = name @ ''_'' @ Sprintf_v (Unix (clock w (reads w)))"
    using TaskName_registered(1) [OF assms(1,3), of uuid] assms(2,4) by simp
  have t: "TaskList w1 = TaskList w"
    using TaskName_registered(2) [OF assms(1,3), of uuid] assms(4) by simp
  have ne: "Name s \<noteq> name" unfolding n by simp
  have "TaskList (AddTask s' w1) name = Some [e]"
    using AddTask_other [of name s' w1] ne assms(1,5) t by simp
  moreover obtain e' where "TaskList (AddTask s' w1) (Name s') = Some [e']" "Name e' = Name s'"
    using AddTask_entry [of s' w1] by blast
  ultimately show ?thesis using n ne assms(5) by (simp add: Get_def)
qed

lemma TrimSpace_backup: "TrimSpace ''backup'' \<noteq> []"
  by code_simp

lemma Sprintf_noon: "Sprintf_v 1704110400 = ''1704110400''"
  by (simp add: Sprintf_v_def digitsOf.simps)

theorem duplicate_name_new_key_witness:
  "TaskList world1 ''backup'' = Some [hd (fst (Get world1 ''backup''))] \<and>
   Name (hd (fst (Get world1 ''backup''))) = ''backup'' \<and> TrimSpace ''backup'' \<noteq> [] \<and>
   Name (fst (TaskName ''u'' ''backup'' world1)) = ''backup_1704110400'' \<and>
   Get (AddTask (Frequently (fst (TaskName ''u'' ''backup'' world1))) (snd (TaskName ''u'' ''backup'' world1)))
     ''backup'' = ([hd (fst (Get world1 ''backup''))], True) \<and>
   (\<exists>e'. Get (AddTask (Frequently (fst (TaskName ''u'' ''backup'' world1)))
            (snd (TaskName ''u'' ''backup'' world1))) ''backup_1704110400'' = ([e'], True) \<and>
      Name e' = ''backup_1704110400'')"
proof -
  define e where "e = hd (fst (Get world1 ''backup''))"
  obtain s w1 where sw: "TaskName ''u'' ''backup'' world1 = (s, w1)"
    by (cases "TaskName ''u'' ''backup'' world1")
  have a: "TaskList world1 ''backup'' = Some [e]"
    unfolding e_def world1_def using AddTask_entry [of backupTask world0]
    by (auto simp: Get_def backupTask_def zeroTask_def)
  have b: "Name e = ''backup''"
    using a AddTask_entry [of backupTask world0] unfolding world1_def
    by (auto simp: backupTask_def zeroTask_def)
  note c = TrimSpace_backup
  have d: "Name (Frequently s) = Name s" by (simp add: Frequently_def)
  have r: "reads world1 = 3" "clock world1 = clock world0"
    unfolding world1_def AddTask_def Let_def
    by (simp_all add: split_beta switchAddTask_def backupTask_def zeroTask_def
        nextFrequently_def everyInterval_def world0_def)
  have "Unix (clock world1 (reads world1)) = 1704110400"
    unfolding r by (simp add: world0_def noon_def Unix_def)
  then have t: "Sprintf_v (Unix (clock world1 (reads world1))) = ''1704110400''"
    by (simp add: Sprintf_noon)
  show ?thesis
    using a b c duplicate_name_new_key [OF a b c sw d] t sw unfolding e_def [symmetric]
    by auto
qed

subsection \<open>Unrecognized rules\<close>

text \<open>
  C9, amended. For a run type that is none of the five rules, \<open>AddTask\<close> inserts the
  entry with \<open>nextRunTime\<close> 0 and emits two notifications: the error-level one, and
  after it the informational next-run notification, for the timestamp 0.
\<close>

theorem unrecognized_rule_commit:
  assumes "RunType s \<noteq> onetime'" "RunType s \<noteq> frequently'" "RunType s \<noteq> daily'"
    "RunType s \<noteq> weekly'" "RunType s \<noteq> monthly'"
  shows "(\<exists>e. TaskList (AddTask s w) (Name s) = Some [e] \<and> nextRunTime e = 0) \<and>
         emittedSince w (AddTask s w) = [(Error, NotRunning (Name s)), (Info, NextSchedule (Name s) 0)]"
proof -
  have sw: "switchAddTask s w = notRunning s w"
    using assms by (simp add: switchAddTask_def)
  have "emitted (AddTask s w) = emitted w @
      [\<lparr>lvl = Error, msg = NotRunning (Name s), logTime = clock w (reads w)\<rparr>,
       \<lparr>lvl = Info, msg = NextSchedule (Name s) 0, logTime = clock w (Suc (reads w))\<rparr>]"
    unfolding AddTask_def Let_def sw by (simp add: split_beta notRunning_def)
  then have "emittedSince w (AddTask s w) =
      [(Error, NotRunning (Name s)), (Info, NextSchedule (Name s) 0)]"
    by (simp add: emittedSince_def)
  moreover have "fst (switchAddTask s w) = 0" unfolding sw by (simp add: notRunning_def)
  ultimately show ?thesis using AddTask_entry [of s w] by auto
qed

theorem unrecognized_rule_commit_witness:
  "RunType unnamedRule \<noteq> onetime' \<and> RunType unnamedRule \<noteq> frequently' \<and>
   RunType unnamedRule \<noteq> daily' \<and> RunType unnamedRule \<noteq> weekly' \<and>
   RunType unnamedRule \<noteq> monthly' \<and>
   (\<exists>e. TaskList (AddTask unnamedRule world0) (Name unnamedRule) = Some [e] \<and> nextRunTime e = 0) \<and>
   emittedSince world0 (AddTask unnamedRule world0) =
     [(Error, NotRunning (Name unnamedRule)), (Info, NextSchedule (Name unnamedRule) 0)]"
proof -
  have h: "RunType unnamedRule \<noteq> onetime'" "RunType unnamedRule \<noteq> frequently'"
    "RunType unnamedRule \<noteq> daily'" "RunType unnamedRule \<noteq> weekly'"
    "RunType unnamedRule \<noteq> monthly'"
    by (simp_all add: unnamedRule_def zeroTask_def ExecFunc_def onetime'_def frequently'_def
        daily'_def weekly'_def monthly'_def)
  show ?thesis using h unrecognized_rule_commit [OF h, of world0] by simp
qed

text \<open>
  C9 as stated fails: the informational notification is emitted as well, not replaced
  by the error.
\<close>

theorem unrecognized_rule_also_informs:
  "RunType unnamedRule = [] \<and>
   emittedSince world0 (AddTask unnamedRule world0) =
     [(Error, NotRunning ''cleanup''), (Info, NextSchedule ''cleanup'' 0)] \<and>
   (Info, NextSchedule ''cleanup'' 0) \<in> set (emittedSince world0 (AddTask unnamedRule world0))"
  by code_simp

subsection \<open>The entry written back after a firing\<close>

text \<open>
  C10. The entry that \<open>UpdateNextRunTime\<close> writes under the task's name is the entry
  it was given with three fields replaced: \<open>nextRunTime\<close> by the newly computed time,
  \<open>lastRunTime\<close> by the Unix time of the last clock reading of the call, and
  \<open>created\<close> by 0. So the name, run type, interval unit and value, callback, hour,
  minute, month day, month name and \<open>isRunAt\<close> are those of the prior entry. This holds
  for every run type. The weekday field is written as 0, which is what a registry entry
  holds already.
\<close>

theorem UpdateNextRunTime_frame:
  assumes "dayName s = 0"
  shows "\<exists>e. TaskList (UpdateNextRunTime s w) (Name s) = Some [e] \<and>
           e = s\<lparr>nextRunTime := fst (switchUpdate s w),
                 lastRunTime := Unix (clock w (reads (UpdateNextRunTime s w) - 1)),
                 created := 0\<rparr>"
  using assms unfolding UpdateNextRunTime_def Let_def
  by (cases s) (simp add: split_beta)

theorem UpdateNextRunTime_frame_witness:
  "dayName backupTask = 0 \<and>
   (\<exists>e. TaskList (UpdateNextRunTime backupTask world0) (Name backupTask) = Some [e] \<and>
      e = backupTask\<lparr>nextRunTime := fst (switchUpdate backupTask world0),
            lastRunTime := Unix (clock world0 (reads (UpdateNextRunTime backupTask world0) - 1)),
            created := 0\<rparr>)"
proof -
  have h: "dayName backupTask = 0" by (simp add: backupTask_def zeroTask_def)
  show ?thesis using h UpdateNextRunTime_frame [OF h, of world0] by simp
qed

end
